theory Spec2Isabelle
  imports Complex_Main
begin

section \<open>The 2D canvas\<close>

text \<open>
  The texture of a model is painted on an HTML canvas through its 2D context.  The
  model keeps what the code can observe of both: the canvas records, in order, every
  painting call together with the transformation matrix in effect when it was made; the
  context carries the fill style and the current transformation matrix.

  JavaScript numbers are modelled as real numbers: arithmetic is exact, the rounding of
  IEEE doubles is not modelled (\<open>Math.PI\<close> is \<open>pi\<close>).  A colour is the
  string handed to \<open>fillStyle\<close>; it is taken to be a valid CSS colour, as the
  initial value \<open>#ffffff\<close> and the values of a colour input are.
\<close>

text \<open>
  An \<open>ImageBitmap\<close> has a width, a height and its pixels (\<open>bitmap\<close> names
  them).  Both sizes of a bitmap are positive; the statements about the placement of an
  image assume it, since the ratio \<open>width / height\<close> of the routines is a division.
\<close>

datatype imageBitmap = ImageBitmap (width: nat) (height: nat) (bitmap: nat)

text \<open>
  The matrix \<open>(a, b, c, d, e, f)\<close> maps the point \<open>(x, y)\<close> of the context's
  coordinate system to the raster point \<open>(a x + c y + e, b x + d y + f)\<close>.
\<close>

type_synonym matrix = "real \<times> real \<times> real \<times> real \<times> real \<times> real"

definition identity_matrix :: matrix where
  "identity_matrix = (1, 0, 0, 1, 0, 0)"

fun scale_matrix :: "real \<Rightarrow> real \<Rightarrow> matrix \<Rightarrow> matrix" where
  "scale_matrix sx sy (a, b, c, d, e, f) = (a * sx, b * sx, c * sy, d * sy, e, f)"

fun rotate_matrix :: "real \<Rightarrow> matrix \<Rightarrow> matrix" where
  "rotate_matrix t (a, b, c, d, e, f) =
     (a * cos t + c * sin t, b * cos t + d * sin t,
      c * cos t - a * sin t, d * cos t - b * sin t, e, f)"

datatype paint =
    FillRect string matrix real real real real
  | DrawImage imageBitmap matrix real real real real

record canvas =
  canvas_width :: nat
  canvas_height :: nat
  painted :: "paint list"

record context2d =
  canvas :: canvas
  fillStyle :: string
  transform :: matrix

definition ctx_fillRect :: "real \<Rightarrow> real \<Rightarrow> real \<Rightarrow> real \<Rightarrow> context2d \<Rightarrow> context2d" where
  "ctx_fillRect x y w h context =
     context\<lparr>canvas := (canvas context)\<lparr>painted :=
       painted (canvas context) @ [FillRect (fillStyle context) (transform context) x y w h]\<rparr>\<rparr>"

definition ctx_scale :: "real \<Rightarrow> real \<Rightarrow> context2d \<Rightarrow> context2d" where
  "ctx_scale sx sy context = context\<lparr>transform := scale_matrix sx sy (transform context)\<rparr>"

definition ctx_rotate :: "real \<Rightarrow> context2d \<Rightarrow> context2d" where
  "ctx_rotate t context = context\<lparr>transform := rotate_matrix t (transform context)\<rparr>"

definition ctx_drawImage ::
    "imageBitmap \<Rightarrow> real \<Rightarrow> real \<Rightarrow> real \<Rightarrow> real \<Rightarrow> context2d \<Rightarrow> context2d" where
  "ctx_drawImage img x y w h context =
     context\<lparr>canvas := (canvas context)\<lparr>painted :=
       painted (canvas context) @ [DrawImage img (transform context) x y w h]\<rparr>\<rparr>"

subsection \<open>What a pixel shows\<close>

text \<open>
  A painting call covers a pixel when the centre of the pixel, taken back through the
  call's matrix, lies in the call's rectangle (a negative width or height extends the
  rectangle to the other side, as the canvas does).  A pixel shows the layers of the calls
  that cover it, the first call lowest.
\<close>

datatype layer = Fill string | Sample imageBitmap real real

fun untransform :: "matrix \<Rightarrow> real \<times> real \<Rightarrow> (real \<times> real) option" where
  "untransform (a, b, c, d, e, f) (px, py) =
     (let det = a * d - b * c in
      if det = 0 then None
      else Some ((d * (px - e) - c * (py - f)) / det, (a * (py - f) - b * (px - e)) / det))"

definition in_rect :: "real \<Rightarrow> real \<Rightarrow> real \<Rightarrow> real \<Rightarrow> real \<times> real \<Rightarrow> bool" where
  "in_rect x y w h p =
     (min x (x + w) \<le> fst p \<and> fst p < max x (x + w) \<and>
      min y (y + h) \<le> snd p \<and> snd p < max y (y + h))"

fun paint_layer :: "paint \<Rightarrow> real \<times> real \<Rightarrow> layer option" where
  "paint_layer (FillRect c m x y w h) p =
     (case untransform m p of
        None \<Rightarrow> None
      | Some q \<Rightarrow> if in_rect x y w h q then Some (Fill c) else None)"
| "paint_layer (DrawImage img m x y w h) p =
     (case untransform m p of
        None \<Rightarrow> None
      | Some q \<Rightarrow>
          if in_rect x y w h q
          then Some (Sample img ((fst q - x) / w * real (width img))
                                ((snd q - y) / h * real (height img)))
          else None)"

definition pixel :: "canvas \<Rightarrow> nat \<Rightarrow> nat \<Rightarrow> layer list" where
  "pixel cv i j = List.map_filter (\<lambda>p. paint_layer p (real i + 1 / 2, real j + 1 / 2)) (painted cv)"

section \<open>The texture compositor\<close>

datatype error = Canvas2DContextError | LoadError | DecodeError

text \<open>
  \<open>document.createElement("canvas")\<close> gives a blank canvas of the default size;
  setting the size leaves the canvas blank.  \<open>getContext("2d")\<close> gives a new 2D
  context in its initial state, or \<open>null\<close> when the platform cannot make one: which
  of the two happens is the parameter \<open>available\<close>, and \<open>setupBaseCanvas\<close>
  throws on \<open>null\<close>.
\<close>

definition createCanvas :: canvas where
  "createCanvas = \<lparr>canvas_width = 300, canvas_height = 150, painted = []\<rparr>"

definition getContext2d :: "bool \<Rightarrow> canvas \<Rightarrow> context2d option" where
  "getContext2d available cv =
     (if available
      then Some \<lparr>canvas = cv, fillStyle = ''#000000'', transform = identity_matrix\<rparr>
      else None)"

definition setupBaseCanvas :: "bool \<Rightarrow> error + context2d" where
  "setupBaseCanvas available =
     (let cv = createCanvas;
          cv = cv\<lparr>canvas_width := 2048, painted := []\<rparr>;
          cv = cv\<lparr>canvas_height := 2048, painted := []\<rparr>
      in case getContext2d available cv of
           None \<Rightarrow> Inl Canvas2DContextError
         | Some context \<Rightarrow> Inr context)"

definition cup :: "context2d \<Rightarrow> string \<Rightarrow> imageBitmap option \<Rightarrow> context2d" where
  "cup context color img =
     (let cw = real (canvas_width (canvas context));
          ch = real (canvas_height (canvas context));
          context = context\<lparr>fillStyle := color\<rparr>;
          context = ctx_fillRect 0 0 cw ch context;
          context = ctx_scale (- 1 / 4) (1 / 2) context;
          context = ctx_rotate (- pi) context
      in case img of
           None \<Rightarrow> context
         | Some im \<Rightarrow>
             (let aspectRatio = real (width im) / real (height im);
                  originalImageWidth = cw - cw / 4;
                  originalImageHeight = ch;
                  imageHeight = (if aspectRatio > 1 then originalImageHeight * (1 / aspectRatio)
                                 else originalImageHeight);
                  imageWidth = (if aspectRatio > 1 then originalImageWidth
                                else if aspectRatio < 1 then originalImageWidth * aspectRatio
                                else originalImageWidth)
              in ctx_drawImage im
                   (cw * 2 + 150 + (originalImageWidth - imageWidth) / 2)
                   (- 1 * (ch + ch / 2) + (originalImageHeight - imageHeight) / 2)
                   imageWidth imageHeight context))"

definition cushion :: "context2d \<Rightarrow> string \<Rightarrow> imageBitmap option \<Rightarrow> context2d" where
  "cushion context color img =
     (let cw = real (canvas_width (canvas context));
          ch = real (canvas_height (canvas context));
          context = context\<lparr>fillStyle := color\<rparr>;
          context = ctx_fillRect 0 0 cw ch context
      in case img of
           None \<Rightarrow> context
         | Some im \<Rightarrow>
             (let aspectRatio = real (width im) / real (height im);
                  insetX = (if aspectRatio > 1 then 200
                            else if aspectRatio < 1 then 200 + (cw - ch * aspectRatio) / 2
                            else 200);
                  insetY = (if aspectRatio > 1 then 200 + (ch - cw / aspectRatio) / 2
                            else 200);
                  context = ctx_scale (- 1 / 2) (1 / 2) context;
                  context = ctx_rotate (- pi / 2) context
              in ctx_drawImage im
                   (- cw + insetX) (- 2 * ch + insetY)
                   (cw - 2 * insetX) (ch - 2 * insetY) context))"

definition DRAW_TEXTURE_MAP ::
    "string \<Rightarrow> (context2d \<Rightarrow> string \<Rightarrow> imageBitmap option \<Rightarrow> context2d) option" where
  "DRAW_TEXTURE_MAP key =
     (if key = ''cup'' then Some cup
      else if key = ''cushion'' then Some cushion
      else None)"

text \<open>
  The raster that \<open>applyTexture\<close> binds for a model name, a colour and an optional
  image when the canvas gives its context: the fresh canvas after the name's drawing
  routine has run, if there is one.
\<close>

definition composite :: "string \<Rightarrow> string \<Rightarrow> imageBitmap option \<Rightarrow> (error + canvas option)" where
  "composite key color img =
     (case setupBaseCanvas True of
        Inl e \<Rightarrow> Inl e
      | Inr context \<Rightarrow>
          (case DRAW_TEXTURE_MAP key of
             None \<Rightarrow> Inr None
           | Some drawTexture \<Rightarrow> Inr (Some (canvas (drawTexture context color img)))))"

text \<open>The rectangle and the matrix of the last \<open>drawImage\<close> call on a canvas.\<close>

fun drawn :: "paint list \<Rightarrow> (matrix \<times> real \<times> real \<times> real \<times> real) option" where
  "drawn [] = None"
| "drawn (FillRect c m x y w h # ps) = drawn ps"
| "drawn (DrawImage img m x y w h # ps) =
     (case drawn ps of None \<Rightarrow> Some (m, x, y, w, h) | Some r \<Rightarrow> Some r)"

text \<open>
  The \<open>drawImage\<close> call a routine makes for an image: its matrix, corner, width and
  height, in the coordinates of the context.
\<close>

definition placement ::
    "string \<Rightarrow> string \<Rightarrow> imageBitmap \<Rightarrow> (matrix \<times> real \<times> real \<times> real \<times> real) option" where
  "placement key color im =
     (case composite key color (Some im) of
        Inr (Some cv) \<Rightarrow> drawn (painted cv)
      | _ \<Rightarrow> None)"

text \<open>
  The width and height, in pixels of the raster, of the bounding box of a rectangle of
  the given width and height drawn under a matrix.
\<close>

fun raster_extent :: "matrix \<Rightarrow> real \<Rightarrow> real \<Rightarrow> real \<times> real" where
  "raster_extent (a, b, c, d, e, f) w h = (\<bar>a * w\<bar> + \<bar>c * h\<bar>, \<bar>b * w\<bar> + \<bar>d * h\<bar>)"

section \<open>The model cache\<close>

text \<open>
  The program's mutable state is one record: the module-level \<open>ModelCache\<close>, the
  meshes (a mesh is a reference, \<open>materials\<close> holds the material of each), the
  children of the scene, and the three variables of \<open>setupImagePreviewControls\<close>.
  \<open>requested\<close> logs the URL of every call of \<open>loadAsync\<close>, in order.

  Events are handled one at a time: a handler runs to its end, also across its
  \<open>await\<close>s, before the next event is handled.  Calls of \<open>loadGLTFObject\<close>
  alone are also modelled step by step, so that they can overlap.
\<close>

record modelWithMeta =
  name :: string
  mesh :: nat

datatype material = Original | MeshStandardMaterial canvas

datatype object3d = AmbientLight | DirectionalLight | Mesh nat

record world =
  ModelCache :: "string \<rightharpoonup> modelWithMeta"
  requested :: "string list"
  next_mesh :: nat
  materials :: "nat \<Rightarrow> material"
  scene :: "object3d list"
  activeModel :: "modelWithMeta option"
  activeImage :: "imageBitmap option"
  color :: string

text \<open>
  What \<open>loadAsync\<close> does with a URL: the promise rejects (the fetch or the parse
  failed), or it resolves to a scene graph whose first child is a mesh, or is not one (or
  is missing).  A graph that is parsed holds new objects: a first child that is a mesh is a
  mesh that did not exist before.
\<close>

datatype gltf = LoadRejected | FirstChildOther | FirstChildMesh

definition model_url :: "string \<Rightarrow> string" where
  "model_url n = ''/models/'' @ n @ ''.glb''"

text \<open>
  \<open>loadGLTFObject\<close> suspends at its \<open>await\<close> when the name is not in the
  cache.  \<open>loadGLTFObject_begin\<close> is the call up to there: with the name in the
  cache it returns the entry at once, without it it requests the asset and suspends
  (\<open>None\<close>).  \<open>loadGLTFObject_resume\<close> is the rest of the call, run when the
  loader's promise settles: it stores a first child that is a mesh under the name,
  whatever the cache holds by then, and returns what the cache holds for the name.
\<close>

definition loadGLTFObject_begin ::
    "string \<Rightarrow> world \<Rightarrow> (error + modelWithMeta option) option \<times> world" where
  "loadGLTFObject_begin n w =
     (if ModelCache w n = None
      then (None, w\<lparr>requested := requested w @ [model_url n]\<rparr>)
      else (Some (Inr (ModelCache w n)), w))"

definition loadGLTFObject_resume ::
    "gltf \<Rightarrow> string \<Rightarrow> world \<Rightarrow> (error + modelWithMeta option) \<times> world" where
  "loadGLTFObject_resume outcome n w =
     (case outcome of
        LoadRejected \<Rightarrow> (Inl LoadError, w)
      | FirstChildOther \<Rightarrow> (Inr (ModelCache w n), w)
      | FirstChildMesh \<Rightarrow>
          (let m = next_mesh w;
               w = w\<lparr>next_mesh := Suc m, materials := (materials w)(m := Original)\<rparr>;
               w = w\<lparr>ModelCache := (ModelCache w)(n \<mapsto> \<lparr>name = n, mesh = m\<rparr>)\<rparr>
           in (Inr (ModelCache w n), w)))"

text \<open>A call that nothing interrupts: the loader's promise settles before anything else runs.\<close>

definition loadGLTFObject ::
    "(string \<Rightarrow> gltf) \<Rightarrow> string \<Rightarrow> world \<Rightarrow> (error + modelWithMeta option) \<times> world" where
  "loadGLTFObject loadAsync n w =
     (case loadGLTFObject_begin n w of
        (Some r, w) \<Rightarrow> (r, w)
      | (None, w) \<Rightarrow> loadGLTFObject_resume (loadAsync (model_url n)) n w)"

text \<open>
  Calls that overlap: a schedule is a list of steps, a step is the beginning of a call or
  the resumption of a suspended one with what its promise settled to.  A step gives the
  call's result when the call ends with it.
\<close>

datatype load_step = Begin string | Resume string gltf

fun take_step :: "load_step \<Rightarrow> world \<Rightarrow> (error + modelWithMeta option) option \<times> world" where
  "take_step (Begin n) w = loadGLTFObject_begin n w"
| "take_step (Resume n outcome) w =
     (case loadGLTFObject_resume outcome n w of (r, w) \<Rightarrow> (Some r, w))"

fun run_steps :: "load_step list \<Rightarrow> world \<Rightarrow> world" where
  "run_steps [] w = w"
| "run_steps (s # steps) w = run_steps steps (snd (take_step s w))"

section \<open>The preview state controller\<close>

text \<open>
  \<open>remove\<close> takes an object out of the scene's children if it is there;
  \<open>add\<close> detaches the object from its parent and appends it.
\<close>

definition scene_remove :: "object3d \<Rightarrow> object3d list \<Rightarrow> object3d list" where
  "scene_remove obj children = remove1 obj children"

definition scene_add :: "object3d \<Rightarrow> object3d list \<Rightarrow> object3d list" where
  "scene_add obj children = remove1 obj children @ [obj]"

definition applyTexture ::
    "bool \<Rightarrow> modelWithMeta \<Rightarrow> imageBitmap option \<Rightarrow> string \<Rightarrow> world \<Rightarrow> (error + unit) \<times> world" where
  "applyTexture available model img col w =
     (case setupBaseCanvas available of
        Inl e \<Rightarrow> (Inl e, w)
      | Inr context \<Rightarrow>
          (case DRAW_TEXTURE_MAP (name model) of
             None \<Rightarrow> (Inr (), w)
           | Some drawTexture \<Rightarrow>
               (let context = drawTexture context col img;
                    material = MeshStandardMaterial (canvas context)
                in (Inr (), w\<lparr>materials := (materials w)(mesh model := material)\<rparr>))))"

definition setActiveModel ::
    "(string \<Rightarrow> gltf) \<Rightarrow> bool \<Rightarrow> string \<Rightarrow> world \<Rightarrow> (error + unit) \<times> world" where
  "setActiveModel loadAsync available n w =
     (case loadGLTFObject loadAsync n w of
        (Inl e, w) \<Rightarrow> (Inl e, w)
      | (Inr None, w) \<Rightarrow> (Inr (), w)
      | (Inr (Some newModel), w) \<Rightarrow>
          (let w = (case activeModel w of
                      None \<Rightarrow> w
                    | Some old \<Rightarrow> w\<lparr>scene := scene_remove (Mesh (mesh old)) (scene w)\<rparr>);
               w = w\<lparr>activeModel := Some newModel\<rparr>
           in case applyTexture available newModel (activeImage w) (color w) w of
                (Inl e, w) \<Rightarrow> (Inl e, w)
              | (Inr u, w) \<Rightarrow> (Inr (), w\<lparr>scene := scene_add (Mesh (mesh newModel)) (scene w)\<rparr>)))"

text \<open>
  The three events.  A model selection carries the value of the radio input and what
  \<open>loadAsync\<close> would do when it is handled; an upload carries the first file of the
  input, if there is one, and a file is what \<open>createImageBitmap\<close> makes of it.
  Every event carries, last, whether a canvas made while it is handled gives its 2D
  context.
\<close>

datatype blob = Decodable imageBitmap | Undecodable

definition createImageBitmap :: "blob \<Rightarrow> error + imageBitmap" where
  "createImageBitmap f = (case f of Decodable im \<Rightarrow> Inr im | Undecodable \<Rightarrow> Inl DecodeError)"

datatype event =
    ModelSelect string "string \<Rightarrow> gltf" bool
  | ImageUpload "blob option" bool
  | ColorInput string bool

fun handle_event :: "event \<Rightarrow> world \<Rightarrow> (error + unit) \<times> world" where
  "handle_event (ModelSelect n loadAsync available) w = setActiveModel loadAsync available n w"
| "handle_event (ImageUpload imageFile available) w =
     (case imageFile of
        None \<Rightarrow> (Inr (), w)
      | Some f \<Rightarrow>
          (case activeModel w of
             None \<Rightarrow> (Inr (), w)
           | Some model \<Rightarrow>
               (case createImageBitmap f of
                  Inl e \<Rightarrow> (Inr (), w)
                | Inr imageBitmap \<Rightarrow>
                    (let w = w\<lparr>activeImage := Some imageBitmap\<rparr>
                     in applyTexture available model (activeImage w) (color w) w))))"
| "handle_event (ColorInput v available) w =
     (let w = w\<lparr>color := v\<rparr>
      in case activeModel w of
           None \<Rightarrow> (Inr (), w)
         | Some model \<Rightarrow> applyTexture available model (activeImage w) (color w) w)"

fun run_events :: "event list \<Rightarrow> world \<Rightarrow> world" where
  "run_events [] w = w"
| "run_events (e # es) w = run_events es (snd (handle_event e w))"

text \<open>
  The world in which \<open>setupImagePreviewControls\<close> starts: \<open>setupLighting\<close> has
  added the two lights to the scene, nothing is cached or selected, the colour is white.
\<close>

definition initial_world :: world where
  "initial_world =
     \<lparr>ModelCache = Map.empty, requested = [], next_mesh = 0, materials = (\<lambda>m. Original),
      scene = [AmbientLight, DirectionalLight],
      activeModel = None, activeImage = None, color = ''#ffffff''\<rparr>"

text \<open>
  \<open>setupImagePreviewControls\<close> selects the model of the checked radio input, if
  there is one, and then registers the handlers; when the selection raises, no handler is
  registered.  A session is the start followed by the events the handlers receive.  The
  checked input comes with what the loader and the canvas would do, as an event does.
\<close>

definition setupImagePreviewControls ::
    "(string \<times> (string \<Rightarrow> gltf) \<times> bool) option \<Rightarrow> world \<Rightarrow> (error + unit) \<times> world" where
  "setupImagePreviewControls activeModelRadioInput w =
     (case activeModelRadioInput of
        None \<Rightarrow> (Inr (), w)
      | Some (v, loadAsync, available) \<Rightarrow> setActiveModel loadAsync available v w)"

definition session :: "(string \<times> (string \<Rightarrow> gltf) \<times> bool) option \<Rightarrow> event list \<Rightarrow> world" where
  "session activeModelRadioInput events =
     (case setupImagePreviewControls activeModelRadioInput initial_world of
        (Inl e, w) \<Rightarrow> w
      | (Inr u, w) \<Rightarrow> run_events events w)"

text \<open>The sequence of \<open>loadGLTFObject\<close> calls, each with what the loader would do.\<close>

fun load_all :: "(string \<times> (string \<Rightarrow> gltf)) list \<Rightarrow> world \<Rightarrow> world" where
  "load_all [] w = w"
| "load_all ((n, loadAsync) # calls) w = load_all calls (snd (loadGLTFObject loadAsync n w))"

text \<open>The meshes among the children of the scene.\<close>

fun meshes :: "object3d list \<Rightarrow> nat list" where
  "meshes [] = []"
| "meshes (Mesh m # objs) = m # meshes objs"
| "meshes (obj # objs) = meshes objs"

section \<open>Consistency of the preview\<close>

text \<open>
  The model identifier an event selects, if it is a model selection, and whether the
  canvas gives its context while the event is handled.
\<close>

fun selected :: "event \<Rightarrow> string option" where
  "selected (ModelSelect n loadAsync available) = Some n"
| "selected e = None"

fun context_available :: "event \<Rightarrow> bool" where
  "context_available (ModelSelect n loadAsync available) = available"
| "context_available (ImageUpload imageFile available) = available"
| "context_available (ColorInput v available) = available"

fun option_list :: "'a option \<Rightarrow> 'a list" where
  "option_list None = []"
| "option_list (Some x) = [x]"

text \<open>
  What holds between two events of any session: the scene holds the two lights and
  after them either nothing or the mesh of the active model; without an active model there
  is no active image; the active model is the cache's entry for its name; an entry of the
  cache is stored under its own name and its mesh has been allocated.
\<close>

definition consistent :: "world \<Rightarrow> bool" where
  "consistent w =
     ((scene w = [AmbientLight, DirectionalLight] \<or>
       scene w = [AmbientLight, DirectionalLight] @ map Mesh (map mesh (option_list (activeModel w)))) \<and>
      (activeModel w = None \<longrightarrow> activeImage w = None) \<and>
      (\<forall>model. activeModel w = Some model \<longrightarrow> ModelCache w (name model) = Some model) \<and>
      (\<forall>n model. ModelCache w n = Some model \<longrightarrow> name model = n \<and> mesh model < next_mesh w))"

text \<open>
  What holds in addition as long as no handler has thrown for want of a 2D context: the
  mesh of the active model is in the scene, and it carries the composite of the current
  colour and image whenever the model's name has a drawing routine.
\<close>

definition settled :: "world \<Rightarrow> bool" where
  "settled w =
     (consistent w \<and>
      scene w = [AmbientLight, DirectionalLight] @ map Mesh (map mesh (option_list (activeModel w))) \<and>
      (\<forall>model cv. activeModel w = Some model \<longrightarrow>
         composite (name model) (color w) (activeImage w) = Inr (Some cv) \<longrightarrow>
         materials w (mesh model) = MeshStandardMaterial cv))"

section \<open>Properties of the compositor\<close>

lemmas ctx_defs = ctx_fillRect_def ctx_scale_def ctx_rotate_def ctx_drawImage_def

lemma setupBaseCanvas_eq:
  "setupBaseCanvas True =
     Inr \<lparr>canvas = \<lparr>canvas_width = 2048, canvas_height = 2048, painted = []\<rparr>,
          fillStyle = ''#000000'', transform = identity_matrix\<rparr>"
  by (simp add: setupBaseCanvas_def createCanvas_def getContext2d_def)

lemma composite_no_image:
  assumes "key = ''cup'' \<or> key = ''cushion''"
  shows "composite key col None =
     Inr (Some \<lparr>canvas_width = 2048, canvas_height = 2048,
                painted = [FillRect col identity_matrix 0 0 2048 2048]\<rparr>)"
  using assms
  by (auto simp: composite_def setupBaseCanvas_eq DRAW_TEXTURE_MAP_def cup_def cushion_def
      ctx_defs Let_def)

lemma pixel_flat:
  assumes "i < 2048" "j < 2048"
  shows "pixel \<lparr>canvas_width = 2048, canvas_height = 2048,
                painted = [FillRect col identity_matrix 0 0 2048 2048]\<rparr> i j = [Fill col]"
  using assms by (simp add: pixel_def List.map_filter_simps in_rect_def identity_matrix_def)

lemma placement_cup:
  "placement ''cup'' col im =
     (let ar = real (width im) / real (height im);
          w = (if ar > 1 then 1536 else if ar < 1 then 1536 * ar else 1536);
          h = (if ar > 1 then 2048 * (1 / ar) else 2048)
      in Some ((1 / 4, 0, 0, - (1 / 2), 0, 0), 4246 + (1536 - w) / 2, - 3072 + (2048 - h) / 2, w, h))"
  by (simp add: placement_def composite_def setupBaseCanvas_eq DRAW_TEXTURE_MAP_def cup_def
      ctx_defs Let_def identity_matrix_def)

lemma placement_cushion:
  "placement ''cushion'' col im =
     (let ar = real (width im) / real (height im);
          insetX = (if ar > 1 then 200 else if ar < 1 then 200 + (2048 - 2048 * ar) / 2 else 200);
          insetY = (if ar > 1 then 200 + (2048 - 2048 / ar) / 2 else 200)
      in Some ((0, - (1 / 2), - (1 / 2), 0, 0, 0), - 2048 + insetX, - 4096 + insetY,
               2048 - 2 * insetX, 2048 - 2 * insetY))"
  by (simp add: placement_def composite_def setupBaseCanvas_eq DRAW_TEXTURE_MAP_def cushion_def
      ctx_defs Let_def identity_matrix_def)


text \<open>
  Claim C8.  For the two names with a drawing routine, \<open>cup\<close> and \<open>cushion\<close>,
  and every colour, compositing without an image gives a 2048 by 2048 surface on which the
  only painting call is the fill of the whole surface with the colour: every pixel shows
  the colour and nothing else.  The surface is new at every call, since
  \<open>composite\<close> starts from \<open>setupBaseCanvas\<close>.
\<close>

theorem composite_without_image_is_flat_fill:
  assumes "key = ''cup'' \<or> key = ''cushion''"
  shows "\<exists>cv. composite key col None = Inr (Some cv) \<and>
           canvas_width cv = 2048 \<and> canvas_height cv = 2048 \<and>
           painted cv = [FillRect col identity_matrix 0 0 2048 2048] \<and>
           (\<forall>i<2048. \<forall>j<2048. pixel cv i j = [Fill col])"
proof -
  let ?cv = "\<lparr>canvas_width = 2048, canvas_height = 2048,
              painted = [FillRect col identity_matrix 0 0 2048 2048]\<rparr>"
  have "composite key col None = Inr (Some ?cv)"
    using assms by (rule composite_no_image)
  moreover have "\<forall>i<2048. \<forall>j<2048. pixel ?cv i j = [Fill col]"
    using pixel_flat by blast
  ultimately show ?thesis by auto
qed

theorem composite_without_image_is_flat_fill_witness:
  "(''cushion'' = ''cup'' \<or> ''cushion'' = ''cushion'') \<and>
   (\<exists>cv. composite ''cushion'' ''#112233'' None = Inr (Some cv) \<and>
      painted cv = [FillRect ''#112233'' identity_matrix 0 0 2048 2048] \<and>
      pixel cv 0 0 = [Fill ''#112233''] \<and> pixel cv 2047 1024 = [Fill ''#112233''])"
  using composite_without_image_is_flat_fill [of "''cushion''" "''#112233''"]
  by auto

text \<open>
  Claim C2 says that both routines draw the image with its own ratio of width to height.
  The cup routine draws a square image 1536 wide and 2048 high in the coordinates of the
  context, which is 384 by 1024 on the raster: neither is square.
\<close>

theorem fitted_placement_counterexample:
  "placement ''cup'' ''#ffffff'' (ImageBitmap 100 100 0) =
     Some ((1 / 4, 0, 0, - (1 / 2), 0, 0), 4246, - 3072, 1536, 2048) \<and>
   (1536 :: real) / 2048 \<noteq> real (width (ImageBitmap 100 100 0)) / real (height (ImageBitmap 100 100 0)) \<and>
   raster_extent (1 / 4, 0, 0, - (1 / 2), 0, 0) 1536 2048 = (384, 1024)"
  by (simp add: placement_cup Let_def)

text \<open>
  Claim C2, amended.  For every colour and every image of positive width and height, with
  \<open>ar\<close> the image's ratio of width to height:
  the cup routine fits the image into its region of 1536 by 2048 in proportion to the
  region, that is, the drawn width as a fraction of 1536 over the drawn height as a
  fraction of 2048 is \<open>ar\<close>; an image at least as wide as tall keeps the region's width
  and gets the height \<open>2048 / ar\<close>, an image at least as tall as wide keeps the
  region's height and gets the width \<open>1536 * ar\<close>; the drawn rectangle lies within
  the region and is centred in it.
  The cushion routine draws a rectangle centred in its region of 1648 by 1648 (the surface
  inset by 200), whose side along the longer side of the image is 1648.  The length of the
  other side of the cushion's rectangle is not part of this statement.
\<close>

theorem fitted_placement:
  assumes "0 < width im" and "0 < height im"
  shows "let ar = real (width im) / real (height im) in
    (\<exists>w h. placement ''cup'' col im =
        Some ((1 / 4, 0, 0, - (1 / 2), 0, 0), 4246 + (1536 - w) / 2, - 3072 + (2048 - h) / 2, w, h) \<and>
      (w / 1536) / (h / 2048) = ar \<and>
      (1 \<le> ar \<longrightarrow> w = 1536 \<and> h = 2048 / ar) \<and>
      (ar \<le> 1 \<longrightarrow> w = 1536 * ar \<and> h = 2048) \<and>
      0 < w \<and> w \<le> 1536 \<and> 0 < h \<and> h \<le> 2048) \<and>
    (\<exists>w h. placement ''cushion'' col im =
        Some ((0, - (1 / 2), - (1 / 2), 0, 0, 0), - 1848 + (1648 - w) / 2, - 3896 + (1648 - h) / 2, w, h) \<and>
      (1 \<le> ar \<longrightarrow> w = 1648) \<and>
      (ar \<le> 1 \<longrightarrow> h = 1648))"
proof -
  define ar where "ar = real (width im) / real (height im)"
  have pos: "0 < ar"
    using assms by (simp add: ar_def)
  consider (wide) "1 < ar" | (tall) "ar < 1" | (square) "ar = 1"
    by linarith
  then have cup_part: "\<exists>w h. placement ''cup'' col im =
        Some ((1 / 4, 0, 0, - (1 / 2), 0, 0), 4246 + (1536 - w) / 2, - 3072 + (2048 - h) / 2, w, h) \<and>
      (w / 1536) / (h / 2048) = ar \<and>
      (1 \<le> ar \<longrightarrow> w = 1536 \<and> h = 2048 / ar) \<and>
      (ar \<le> 1 \<longrightarrow> w = 1536 * ar \<and> h = 2048) \<and>
      0 < w \<and> w \<le> 1536 \<and> 0 < h \<and> h \<le> 2048"
  proof cases
    case wide
    then have "placement ''cup'' col im =
        Some ((1 / 4, 0, 0, - (1 / 2), 0, 0), 4246 + (1536 - 1536) / 2,
              - 3072 + (2048 - 2048 / ar) / 2, 1536, 2048 / ar)"
      by (simp add: placement_cup Let_def ar_def [symmetric])
    moreover have "2048 / ar \<le> 2048"
      using wide pos by (simp add: field_simps)
    moreover have "(1536 / 1536) / ((2048 / ar) / 2048) = ar"
      using pos by simp
    ultimately show ?thesis
      using wide pos by (intro exI [of _ 1536] exI [of _ "2048 / ar"]) simp
  next
    case tall
    then have "placement ''cup'' col im =
        Some ((1 / 4, 0, 0, - (1 / 2), 0, 0), 4246 + (1536 - 1536 * ar) / 2,
              - 3072 + (2048 - 2048) / 2, 1536 * ar, 2048)"
      by (simp add: placement_cup Let_def ar_def [symmetric])
    then show ?thesis
      using tall pos by (intro exI [of _ "1536 * ar"] exI [of _ 2048]) simp
  next
    case square
    then have "placement ''cup'' col im =
        Some ((1 / 4, 0, 0, - (1 / 2), 0, 0), 4246 + (1536 - 1536) / 2,
              - 3072 + (2048 - 2048) / 2, 1536, 2048)"
      by (simp add: placement_cup Let_def ar_def [symmetric])
    then show ?thesis
      using square by (intro exI [of _ 1536] exI [of _ 2048]) simp
  qed
  have cushion_part: "\<exists>w h. placement ''cushion'' col im =
        Some ((0, - (1 / 2), - (1 / 2), 0, 0, 0), - 1848 + (1648 - w) / 2, - 3896 + (1648 - h) / 2, w, h) \<and>
      (1 \<le> ar \<longrightarrow> w = 1648) \<and> (ar \<le> 1 \<longrightarrow> h = 1648)"
  proof -
    consider (wide) "1 < ar" | (tall) "ar < 1" | (square) "ar = 1"
      by linarith
    then show ?thesis
    proof cases
      case wide
      then show ?thesis
        by (intro exI [of _ 1648] exI [of _ "2048 / ar - 400"])
          (simp add: placement_cushion Let_def ar_def [symmetric] field_simps)
    next
      case tall
      then show ?thesis
        by (intro exI [of _ "2048 * ar - 400"] exI [of _ 1648])
          (simp add: placement_cushion Let_def ar_def [symmetric] field_simps)
    next
      case square
      then show ?thesis
        by (intro exI [of _ 1648] exI [of _ 1648])
          (simp add: placement_cushion Let_def ar_def [symmetric])
    qed
  qed
  show ?thesis
    unfolding Let_def ar_def [symmetric] using cup_part cushion_part by blast
qed

theorem fitted_placement_witness:
  "0 < width (ImageBitmap 200 100 7) \<and> 0 < height (ImageBitmap 200 100 7) \<and>
   placement ''cup'' ''#112233'' (ImageBitmap 200 100 7) =
     Some ((1 / 4, 0, 0, - (1 / 2), 0, 0), 4246, - 2560, 1536, 1024) \<and>
   ((1536 :: real) / 1536) / (1024 / 2048) = real 200 / real 100 \<and>
   (\<exists>h. placement ''cushion'' ''#112233'' (ImageBitmap 200 100 7) =
     Some ((0, - (1 / 2), - (1 / 2), 0, 0, 0), - 1848, - 3896 + (1648 - h) / 2, 1648, h))"
  using fitted_placement [of "ImageBitmap 200 100 7" "''#112233''"]
  by (simp add: Let_def placement_cup)

text \<open>
  Claim C3.  The cushion routine computes the slack of the shorter side from the whole
  surface (2048) and not from its region (1648): an image twice as wide as tall is drawn
  1648 by 624, where 1648 divided by the ratio is 824; an image twice as tall as wide is
  drawn 624 by 1648; an image six times as wide as tall gets a negative height.
\<close>

theorem cushion_wide_image_distorted:
  "placement ''cushion'' ''#ffffff'' (ImageBitmap 200 100 0) =
     Some ((0, - (1 / 2), - (1 / 2), 0, 0, 0), - 1848, - 3384, 1648, 624) \<and>
   (624 :: real) \<noteq> 1648 / (real (width (ImageBitmap 200 100 0)) / real (height (ImageBitmap 200 100 0))) \<and>
   placement ''cushion'' ''#ffffff'' (ImageBitmap 100 200 0) =
     Some ((0, - (1 / 2), - (1 / 2), 0, 0, 0), - 1336, - 3896, 624, 1648) \<and>
   placement ''cushion'' ''#ffffff'' (ImageBitmap 600 100 0) =
     Some ((0, - (1 / 2), - (1 / 2), 0, 0, 0), - 1848, - (9128 / 3), 1648, - (176 / 3))"
  by (simp add: placement_cushion Let_def)

section \<open>Properties of the cache and the controller\<close>

lemma setupBaseCanvas_unavailable: "setupBaseCanvas False = Inl Canvas2DContextError"
  by (simp add: setupBaseCanvas_def createCanvas_def getContext2d_def)

lemma composite_eq:
  "composite key col img =
     Inr (case DRAW_TEXTURE_MAP key of
            None \<Rightarrow> None
          | Some drawTexture \<Rightarrow>
              Some (canvas (drawTexture
                \<lparr>canvas = \<lparr>canvas_width = 2048, canvas_height = 2048, painted = []\<rparr>,
                 fillStyle = ''#000000'', transform = identity_matrix\<rparr> col img)))"
  by (simp add: composite_def setupBaseCanvas_eq split: option.splits)

lemma composite_supported:
  assumes "key = ''cup'' \<or> key = ''cushion''"
  shows "\<exists>cv. composite key col img = Inr (Some cv)"
  using assms by (auto simp: composite_eq DRAW_TEXTURE_MAP_def)

lemma composite_cases:
  obtains "composite key col img = Inr None" | cv where "composite key col img = Inr (Some cv)"
  by (cases "DRAW_TEXTURE_MAP key") (auto simp: composite_eq)

lemma applyTexture_unavailable:
  "applyTexture False model img col w = (Inl Canvas2DContextError, w)"
  by (simp add: applyTexture_def setupBaseCanvas_unavailable)

lemma applyTexture_eq:
  "applyTexture True model img col w =
     (Inr (), case composite (name model) col img of
                Inr (Some cv) \<Rightarrow> w\<lparr>materials := (materials w)(mesh model := MeshStandardMaterial cv)\<rparr>
              | _ \<Rightarrow> w)"
  by (simp add: applyTexture_def composite_eq setupBaseCanvas_eq Let_def split: option.splits)

lemma applyTexture_None:
  assumes "composite (name model) col img = Inr None"
  shows "applyTexture True model img col w = (Inr (), w)"
  using assms by (simp add: applyTexture_eq)

lemma applyTexture_Some:
  assumes "composite (name model) col img = Inr (Some cv)"
  shows "applyTexture True model img col w =
           (Inr (), w\<lparr>materials := (materials w)(mesh model := MeshStandardMaterial cv)\<rparr>)"
  using assms by (simp add: applyTexture_eq)

text \<open>
  Whatever the canvas does, \<open>applyTexture\<close> changes at most the material of the
  model's mesh.
\<close>

lemma applyTexture_materials:
  "\<exists>ms. snd (applyTexture available model img col w) = w\<lparr>materials := ms\<rparr>"
proof (cases available)
  case False
  have "w\<lparr>materials := materials w\<rparr> = w" by simp
  then show ?thesis using False by (auto simp: applyTexture_unavailable intro: exI [of _ "materials w"])
next
  case True
  show ?thesis
  proof (cases rule: composite_cases [of "name model" col img])
    case 1
    have "w\<lparr>materials := materials w\<rparr> = w" by simp
    then show ?thesis using True 1 by (auto simp: applyTexture_None intro: exI [of _ "materials w"])
  next
    case (2 cv)
    then show ?thesis using True by (auto simp: applyTexture_Some)
  qed
qed

lemma loadGLTFObject_cached:
  assumes "ModelCache w n = Some model"
  shows "loadGLTFObject loadAsync n w = (Inr (Some model), w)"
  using assms by (simp add: loadGLTFObject_def loadGLTFObject_begin_def)

lemma loadGLTFObject_uncached:
  assumes "ModelCache w n = None"
  shows "loadGLTFObject loadAsync n w =
     (case loadAsync (model_url n) of
        LoadRejected \<Rightarrow> (Inl LoadError, w\<lparr>requested := requested w @ [model_url n]\<rparr>)
      | FirstChildOther \<Rightarrow> (Inr None, w\<lparr>requested := requested w @ [model_url n]\<rparr>)
      | FirstChildMesh \<Rightarrow>
          (Inr (Some \<lparr>name = n, mesh = next_mesh w\<rparr>),
           w\<lparr>requested := requested w @ [model_url n], next_mesh := Suc (next_mesh w),
             materials := (materials w)(next_mesh w := Original),
             ModelCache := (ModelCache w)(n \<mapsto> \<lparr>name = n, mesh = next_mesh w\<rparr>)\<rparr>))"
  using assms
  by (simp add: loadGLTFObject_def loadGLTFObject_begin_def loadGLTFObject_resume_def Let_def
      split: gltf.splits)

lemma loadGLTFObject_Some:
  assumes "loadGLTFObject loadAsync n w = (Inr (Some model), w1)"
  shows "ModelCache w1 n = Some model"
proof (cases "ModelCache w n")
  case None
  then show ?thesis using assms
    by (cases "loadAsync (model_url n)") (auto simp: loadGLTFObject_uncached)
next
  case (Some cached)
  then show ?thesis using assms by (auto simp: loadGLTFObject_cached)
qed

lemma loadGLTFObject_preview:
  "activeModel (snd (loadGLTFObject loadAsync n w)) = activeModel w \<and>
   activeImage (snd (loadGLTFObject loadAsync n w)) = activeImage w \<and>
   color (snd (loadGLTFObject loadAsync n w)) = color w \<and>
   scene (snd (loadGLTFObject loadAsync n w)) = scene w"
proof (cases "ModelCache w n")
  case None
  then show ?thesis
    by (cases "loadAsync (model_url n)") (simp_all add: loadGLTFObject_uncached)
next
  case (Some cached)
  then show ?thesis by (simp add: loadGLTFObject_cached)
qed

lemma consistentI:
  assumes "scene w = [AmbientLight, DirectionalLight] \<or>
      scene w = [AmbientLight, DirectionalLight] @ map Mesh (map mesh (option_list (activeModel w)))"
    and "activeModel w = None \<Longrightarrow> activeImage w = None"
    and "\<And>model. activeModel w = Some model \<Longrightarrow> ModelCache w (name model) = Some model"
    and "\<And>n model. ModelCache w n = Some model \<Longrightarrow> name model = n"
    and "\<And>n model. ModelCache w n = Some model \<Longrightarrow> mesh model < next_mesh w"
  shows "consistent w"
  unfolding consistent_def using assms by blast

lemma consistent_scene:
  "consistent w \<Longrightarrow>
     scene w = [AmbientLight, DirectionalLight] \<or>
     scene w = [AmbientLight, DirectionalLight] @ map Mesh (map mesh (option_list (activeModel w)))"
  by (simp add: consistent_def)

lemma consistent_no_image: "consistent w \<Longrightarrow> activeModel w = None \<Longrightarrow> activeImage w = None"
  by (simp add: consistent_def)

lemma consistent_active_cached:
  "consistent w \<Longrightarrow> activeModel w = Some model \<Longrightarrow> ModelCache w (name model) = Some model"
  by (simp add: consistent_def)

lemma consistent_cache_name:
  "consistent w \<Longrightarrow> ModelCache w n = Some model \<Longrightarrow> name model = n"
  unfolding consistent_def by blast

lemma consistent_cache_mesh:
  "consistent w \<Longrightarrow> ModelCache w n = Some model \<Longrightarrow> mesh model < next_mesh w"
  unfolding consistent_def by blast

lemma consistent_requested:
  assumes "consistent w"
  shows "consistent (w\<lparr>requested := r\<rparr>)"
  using assms unfolding consistent_def by simp

lemma consistent_materials:
  assumes "consistent w"
  shows "consistent (w\<lparr>materials := ms\<rparr>)"
  using assms unfolding consistent_def by simp

lemma consistent_load:
  assumes "consistent w"
  shows "consistent (snd (loadGLTFObject loadAsync n w))"
proof (cases "ModelCache w n")
  case (Some model)
  then show ?thesis using assms by (simp add: loadGLTFObject_cached)
next
  case None
  show ?thesis
  proof (cases "loadAsync (model_url n)")
    case LoadRejected
    then show ?thesis using assms None
      by (simp add: loadGLTFObject_uncached consistent_requested)
  next
    case FirstChildOther
    then show ?thesis using assms None
      by (simp add: loadGLTFObject_uncached consistent_requested)
  next
    case FirstChildMesh
    define w1 where "w1 = w\<lparr>requested := requested w @ [model_url n], next_mesh := Suc (next_mesh w),
             materials := (materials w)(next_mesh w := Original),
             ModelCache := (ModelCache w)(n \<mapsto> \<lparr>name = n, mesh = next_mesh w\<rparr>)\<rparr>"
    have res: "snd (loadGLTFObject loadAsync n w) = w1"
      using None FirstChildMesh by (simp add: loadGLTFObject_uncached w1_def)
    have same: "scene w1 = scene w" "activeModel w1 = activeModel w"
      "activeImage w1 = activeImage w" "color w1 = color w"
      by (simp_all add: w1_def)
    have cache: "ModelCache w1 = (ModelCache w)(n \<mapsto> \<lparr>name = n, mesh = next_mesh w\<rparr>)"
      and nxt: "next_mesh w1 = Suc (next_mesh w)"
      by (simp_all add: w1_def)
    have "consistent w1"
    proof (rule consistentI)
      show "scene w1 = [AmbientLight, DirectionalLight] \<or>
        scene w1 = [AmbientLight, DirectionalLight] @ map Mesh (map mesh (option_list (activeModel w1)))"
        using consistent_scene [OF assms] by (simp add: same)
      show "activeModel w1 = None \<Longrightarrow> activeImage w1 = None"
        using consistent_no_image [OF assms] by (simp add: same)
    next
      fix model assume a: "activeModel w1 = Some model"
      then have c: "ModelCache w (name model) = Some model"
        using consistent_active_cached [OF assms] by (simp add: same)
      then have "name model \<noteq> n" using None by auto
      then show "ModelCache w1 (name model) = Some model"
        using c by (simp add: cache)
    next
      fix k model assume a: "ModelCache w1 k = Some model"
      show "name model = k"
      proof (cases "k = n")
        case True
        then show ?thesis using a by (auto simp: cache)
      next
        case False
        then show ?thesis using a consistent_cache_name [OF assms, of k model] by (simp add: cache)
      qed
      show "mesh model < next_mesh w1"
      proof (cases "k = n")
        case True
        then show ?thesis using a by (auto simp: cache nxt)
      next
        case False
        then show ?thesis using a consistent_cache_mesh [OF assms, of k model]
          by (simp add: cache nxt)
      qed
    qed
    then show ?thesis by (simp add: res)
  qed
qed

text \<open>A load leaves the material of every mesh of the cache as it is.\<close>

lemma materials_load:
  assumes "consistent w" and "ModelCache w k = Some model"
  shows "materials (snd (loadGLTFObject loadAsync n w)) (mesh model) = materials w (mesh model)"
proof (cases "ModelCache w n")
  case (Some cached)
  then show ?thesis by (simp add: loadGLTFObject_cached)
next
  case None
  have "mesh model \<noteq> next_mesh w"
    using consistent_cache_mesh [OF assms] by simp
  then show ?thesis using None
    by (cases "loadAsync (model_url n)") (simp_all add: loadGLTFObject_uncached)
qed

lemma setActiveModel_Inl:
  assumes "loadGLTFObject loadAsync n w = (Inl e, w1)"
  shows "setActiveModel loadAsync available n w = (Inl e, w1)"
  using assms by (simp add: setActiveModel_def)

lemma setActiveModel_None:
  assumes "loadGLTFObject loadAsync n w = (Inr None, w1)"
  shows "setActiveModel loadAsync available n w = (Inr (), w1)"
  using assms by (simp add: setActiveModel_def)

lemma scene_without_active:
  assumes "consistent w"
  shows "(case activeModel w of
            None \<Rightarrow> scene w
          | Some old \<Rightarrow> scene_remove (Mesh (mesh old)) (scene w)) = [AmbientLight, DirectionalLight]"
  using consistent_scene [OF assms] by (cases "activeModel w") (auto simp: scene_remove_def)

lemma setActiveModel_thrown:
  assumes "consistent w1" and "loadGLTFObject loadAsync n w = (Inr (Some newModel), w1)"
  shows "setActiveModel loadAsync False n w =
     (Inl Canvas2DContextError,
      w1\<lparr>scene := [AmbientLight, DirectionalLight], activeModel := Some newModel\<rparr>)"
proof (cases "activeModel w1")
  case None
  then show ?thesis
    using assms(2) scene_without_active [OF assms(1)]
    by (simp add: setActiveModel_def Let_def applyTexture_unavailable)
next
  case (Some old)
  then show ?thesis
    using assms(2) scene_without_active [OF assms(1)]
    by (simp add: setActiveModel_def Let_def applyTexture_unavailable)
qed

lemma setActiveModel_loaded:
  assumes "consistent w1" and "loadGLTFObject loadAsync n w = (Inr (Some newModel), w1)"
  shows "setActiveModel loadAsync True n w =
     (Inr (), (case composite (name newModel) (color w1) (activeImage w1) of
                 Inr (Some cv) \<Rightarrow>
                   w1\<lparr>materials := (materials w1)(mesh newModel := MeshStandardMaterial cv)\<rparr>
               | _ \<Rightarrow> w1)
              \<lparr>scene := [AmbientLight, DirectionalLight, Mesh (mesh newModel)],
               activeModel := Some newModel\<rparr>)"
proof (cases rule: composite_cases [of "name newModel" "color w1" "activeImage w1"])
  case 1
  show ?thesis
  proof (cases "activeModel w1")
    case None
    then show ?thesis
      using assms(2) scene_without_active [OF assms(1)] 1
      by (simp add: setActiveModel_def Let_def applyTexture_None scene_add_def)
  next
    case (Some old)
    then show ?thesis
      using assms(2) scene_without_active [OF assms(1)] 1
      by (simp add: setActiveModel_def Let_def applyTexture_None scene_add_def)
  qed
next
  case (2 cv)
  show ?thesis
  proof (cases "activeModel w1")
    case None
    then show ?thesis
      using assms(2) scene_without_active [OF assms(1)] 2
      by (simp add: setActiveModel_def Let_def applyTexture_Some scene_add_def)
  next
    case (Some old)
    then show ?thesis
      using assms(2) scene_without_active [OF assms(1)] 2
      by (simp add: setActiveModel_def Let_def applyTexture_Some scene_add_def)
  qed
qed

lemma consistent_setActiveModel:
  assumes "consistent w"
  shows "consistent (snd (setActiveModel loadAsync available n w))"
proof -
  obtain r w1 where load: "loadGLTFObject loadAsync n w = (r, w1)"
    by (cases "loadGLTFObject loadAsync n w")
  have c1: "consistent w1"
    using consistent_load [OF assms, of loadAsync n] load by simp
  show ?thesis
  proof (cases r)
    case (Inl e)
    then show ?thesis using load c1 by (simp add: setActiveModel_Inl)
  next
    case (Inr found)
    show ?thesis
    proof (cases found)
      case None
      then show ?thesis using load c1 Inr by (simp add: setActiveModel_None)
    next
      case (Some newModel)
      have load': "loadGLTFObject loadAsync n w = (Inr (Some newModel), w1)"
        using load Inr Some by simp
      have cached: "ModelCache w1 n = Some newModel"
        using load' by (rule loadGLTFObject_Some)
      then have nm: "name newModel = n"
        using c1 by (simp add: consistent_cache_name)
      show ?thesis
      proof (cases available)
        case False
        have "consistent (w1\<lparr>scene := [AmbientLight, DirectionalLight], activeModel := Some newModel\<rparr>)"
          using c1 cached nm unfolding consistent_def by simp
        then show ?thesis using False by (simp add: setActiveModel_thrown [OF c1 load'])
      next
        case True
        have c2: "consistent (w1\<lparr>scene := [AmbientLight, DirectionalLight, Mesh (mesh newModel)],
                              activeModel := Some newModel\<rparr>)"
          using c1 cached nm unfolding consistent_def by simp
        show ?thesis
        proof (cases rule: composite_cases [of "name newModel" "color w1" "activeImage w1"])
          case 1
          then show ?thesis using True c2 by (simp add: setActiveModel_loaded [OF c1 load'])
        next
          case (2 cv)
          have "consistent (w1\<lparr>materials := (materials w1)(mesh newModel := MeshStandardMaterial cv),
                              scene := [AmbientLight, DirectionalLight, Mesh (mesh newModel)],
                              activeModel := Some newModel\<rparr>)"
            using c1 cached nm unfolding consistent_def by simp
          then show ?thesis using True 2 by (simp add: setActiveModel_loaded [OF c1 load'])
        qed
      qed
    qed
  qed
qed

lemma handle_image_ignored:
  assumes "imageFile = None \<or> activeModel w = None \<or> imageFile = Some Undecodable"
  shows "handle_event (ImageUpload imageFile available) w = (Inr (), w)"
  using assms by (auto simp: createImageBitmap_def split: option.splits)

lemma handle_image_decoded:
  assumes "activeModel w = Some model"
  shows "handle_event (ImageUpload (Some (Decodable im)) available) w =
           applyTexture available model (Some im) (color w) (w\<lparr>activeImage := Some im\<rparr>)"
  using assms by (simp add: createImageBitmap_def)

lemma handle_color_active:
  assumes "activeModel w = Some model"
  shows "handle_event (ColorInput v available) w =
           applyTexture available model (activeImage w) v (w\<lparr>color := v\<rparr>)"
  using assms by simp

lemma image_cases:
  obtains "imageFile = None \<or> activeModel w = None \<or> imageFile = Some Undecodable"
  | model im where "activeModel w = Some model" and "imageFile = Some (Decodable im)"
proof (cases "imageFile = None \<or> activeModel w = None \<or> imageFile = Some Undecodable")
  case True
  then show ?thesis by (rule that(1))
next
  case False
  then obtain model im where "activeModel w = Some model" and "imageFile = Some (Decodable im)"
    by (cases imageFile; cases "activeModel w"; cases "the imageFile") auto
  then show ?thesis by (rule that(2))
qed

lemma consistent_applyTexture:
  assumes "consistent w"
  shows "consistent (snd (applyTexture available model img col w))"
proof -
  obtain ms where "snd (applyTexture available model img col w) = w\<lparr>materials := ms\<rparr>"
    using applyTexture_materials by blast
  then show ?thesis using consistent_materials [OF assms] by simp
qed

lemma consistent_handle_event:
  assumes "consistent w"
  shows "consistent (snd (handle_event e w))"
proof (cases e)
  case (ModelSelect n loadAsync available)
  then show ?thesis using assms by (simp add: consistent_setActiveModel)
next
  case (ImageUpload imageFile available)
  show ?thesis
  proof (cases rule: image_cases [of imageFile w])
    case 1
    then show ?thesis using assms ImageUpload by (simp only: handle_image_ignored snd_conv)
  next
    case (2 model im)
    have "consistent (w\<lparr>activeImage := Some im\<rparr>)"
      using assms 2(1) unfolding consistent_def by simp
    then have "consistent (snd (applyTexture available model (Some im) (color w)
             (w\<lparr>activeImage := Some im\<rparr>)))"
      by (rule consistent_applyTexture)
    then show ?thesis using ImageUpload 2
      by (simp del: handle_event.simps add: handle_image_decoded)
  qed
next
  case (ColorInput v available)
  have cv: "consistent (w\<lparr>color := v\<rparr>)"
    using assms unfolding consistent_def by simp
  show ?thesis
  proof (cases "activeModel w")
    case None
    then show ?thesis using ColorInput cv by simp
  next
    case (Some model)
    have "consistent (snd (applyTexture available model (activeImage w) v (w\<lparr>color := v\<rparr>)))"
      using cv by (rule consistent_applyTexture)
    then show ?thesis using ColorInput Some
      by (simp del: handle_event.simps add: handle_color_active)
  qed
qed

lemma consistent_run_events:
  assumes "consistent w"
  shows "consistent (run_events events w)"
  using assms by (induction events arbitrary: w) (simp_all add: consistent_handle_event)

lemma consistent_initial_world: "consistent initial_world"
  by (simp add: consistent_def initial_world_def)

lemma consistent_setup:
  "consistent (snd (setupImagePreviewControls activeModelRadioInput initial_world))"
proof (cases activeModelRadioInput)
  case None
  then show ?thesis by (simp add: setupImagePreviewControls_def consistent_initial_world)
next
  case (Some a)
  obtain v loadAsync available where "a = (v, loadAsync, available)" by (cases a)
  then show ?thesis using Some
    by (simp add: setupImagePreviewControls_def consistent_setActiveModel consistent_initial_world)
qed

lemma consistent_session: "consistent (session activeModelRadioInput events)"
proof -
  obtain r w where s: "setupImagePreviewControls activeModelRadioInput initial_world = (r, w)"
    by (cases "setupImagePreviewControls activeModelRadioInput initial_world")
  then have "consistent w"
    using consistent_setup [of activeModelRadioInput] by simp
  then show ?thesis
    using s by (cases r) (simp_all add: session_def consistent_run_events)
qed

lemma settled_consistent: "settled w \<Longrightarrow> consistent w"
  by (simp add: settled_def)

lemma settled_scene:
  "settled w \<Longrightarrow>
     scene w = [AmbientLight, DirectionalLight] @ map Mesh (map mesh (option_list (activeModel w)))"
  by (simp add: settled_def)

lemma settled_material:
  "settled w \<Longrightarrow> activeModel w = Some model \<Longrightarrow>
     composite (name model) (color w) (activeImage w) = Inr (Some cv) \<Longrightarrow>
     materials w (mesh model) = MeshStandardMaterial cv"
  unfolding settled_def by blast

lemma settledI:
  assumes "consistent w"
    and "scene w = [AmbientLight, DirectionalLight] @ map Mesh (map mesh (option_list (activeModel w)))"
    and "\<And>model cv. activeModel w = Some model \<Longrightarrow>
           composite (name model) (color w) (activeImage w) = Inr (Some cv) \<Longrightarrow>
           materials w (mesh model) = MeshStandardMaterial cv"
  shows "settled w"
  unfolding settled_def using assms by blast

lemma settled_load:
  assumes "settled w"
  shows "settled (snd (loadGLTFObject loadAsync n w))"
proof (rule settledI)
  let ?w1 = "snd (loadGLTFObject loadAsync n w)"
  have c: "consistent w" using assms by (rule settled_consistent)
  show "consistent ?w1" using c by (rule consistent_load)
  show "scene ?w1 = [AmbientLight, DirectionalLight] @ map Mesh (map mesh (option_list (activeModel ?w1)))"
    using settled_scene [OF assms] by (simp add: loadGLTFObject_preview)
  fix model cv
  assume a: "activeModel ?w1 = Some model"
    and b: "composite (name model) (color ?w1) (activeImage ?w1) = Inr (Some cv)"
  have a': "activeModel w = Some model" using a by (simp add: loadGLTFObject_preview)
  have "materials w (mesh model) = MeshStandardMaterial cv"
    using assms a' b by (simp add: loadGLTFObject_preview settled_material)
  moreover have "materials ?w1 (mesh model) = materials w (mesh model)"
    using c consistent_active_cached [OF c a'] by (rule materials_load)
  ultimately show "materials ?w1 (mesh model) = MeshStandardMaterial cv" by simp
qed

text \<open>Binding a new composite to the active model's mesh, after any change of image and colour.\<close>

lemma settled_rebind:
  assumes "settled w" and "activeModel w = Some model"
  shows "settled (snd (applyTexture True model img col (w\<lparr>activeImage := img, color := col\<rparr>)))"
proof (cases rule: composite_cases [of "name model" col img])
  case 1
  have "settled (w\<lparr>activeImage := img, color := col\<rparr>)"
    using assms 1 unfolding settled_def consistent_def by simp
  then show ?thesis using 1 by (simp add: applyTexture_None)
next
  case (2 cv)
  have "settled (w\<lparr>activeImage := img, color := col,
          materials := (materials w)(mesh model := MeshStandardMaterial cv)\<rparr>)"
    using assms 2 unfolding settled_def consistent_def by simp
  then show ?thesis using 2 by (simp add: applyTexture_Some)
qed

lemma settled_setActiveModel:
  assumes "settled w"
  shows "settled (snd (setActiveModel loadAsync True n w))"
proof -
  obtain r w1 where load: "loadGLTFObject loadAsync n w = (r, w1)"
    by (cases "loadGLTFObject loadAsync n w")
  have s1: "settled w1"
    using settled_load [OF assms, of loadAsync n] load by simp
  have c1: "consistent w1" using s1 by (rule settled_consistent)
  show ?thesis
  proof (cases r)
    case (Inl e)
    then show ?thesis using load s1 by (simp add: setActiveModel_Inl)
  next
    case (Inr found)
    show ?thesis
    proof (cases found)
      case None
      then show ?thesis using load s1 Inr by (simp add: setActiveModel_None)
    next
      case (Some newModel)
      have load': "loadGLTFObject loadAsync n w = (Inr (Some newModel), w1)"
        using load Inr Some by simp
      have cached: "ModelCache w1 n = Some newModel"
        using load' by (rule loadGLTFObject_Some)
      then have nm: "name newModel = n"
        using c1 by (simp add: consistent_cache_name)
      show ?thesis
      proof (cases rule: composite_cases [of "name newModel" "color w1" "activeImage w1"])
        case 1
        have "settled (w1\<lparr>scene := [AmbientLight, DirectionalLight, Mesh (mesh newModel)],
                              activeModel := Some newModel\<rparr>)"
          using c1 cached nm 1 unfolding settled_def consistent_def by simp
        then show ?thesis using 1 by (simp add: setActiveModel_loaded [OF c1 load'])
      next
        case (2 cv)
        have "settled (w1\<lparr>materials := (materials w1)(mesh newModel := MeshStandardMaterial cv),
                              scene := [AmbientLight, DirectionalLight, Mesh (mesh newModel)],
                              activeModel := Some newModel\<rparr>)"
          using c1 cached nm 2 unfolding settled_def consistent_def by simp
        then show ?thesis using 2 by (simp add: setActiveModel_loaded [OF c1 load'])
      qed
    qed
  qed
qed

lemma settled_handle_event:
  assumes "settled w" and "context_available e"
  shows "settled (snd (handle_event e w))"
proof (cases e)
  case (ModelSelect n loadAsync available)
  then show ?thesis using assms by (simp add: settled_setActiveModel)
next
  case (ImageUpload imageFile available)
  then have av: "available" using assms(2) by simp
  show ?thesis
  proof (cases rule: image_cases [of imageFile w])
    case 1
    then show ?thesis using assms(1) ImageUpload by (simp only: handle_image_ignored snd_conv)
  next
    case (2 model im)
    have "settled (snd (applyTexture True model (Some im) (color w)
             (w\<lparr>activeImage := Some im, color := color w\<rparr>)))"
      using assms(1) 2(1) by (rule settled_rebind)
    then show ?thesis using ImageUpload 2 av
      by (simp del: handle_event.simps add: handle_image_decoded)
  qed
next
  case (ColorInput v available)
  then have av: "available" using assms(2) by simp
  show ?thesis
  proof (cases "activeModel w")
    case None
    have "settled (w\<lparr>color := v\<rparr>)"
      using assms(1) None unfolding settled_def consistent_def by simp
    then show ?thesis using ColorInput None by simp
  next
    case (Some model)
    have "settled (snd (applyTexture True model (activeImage w) v
             (w\<lparr>activeImage := activeImage w, color := v\<rparr>)))"
      using assms(1) Some by (rule settled_rebind)
    then show ?thesis using ColorInput Some av
      by (simp del: handle_event.simps add: handle_color_active)
  qed
qed

lemma settled_run_events:
  assumes "settled w" and "\<forall>e \<in> set events. context_available e"
  shows "settled (run_events events w)"
  using assms
proof (induction events arbitrary: w)
  case Nil
  then show ?case by simp
next
  case (Cons e events)
  have a: "settled (snd (handle_event e w))"
    using Cons.prems by (simp add: settled_handle_event)
  have b: "\<forall>e \<in> set events. context_available e"
    using Cons.prems(2) by simp
  show ?case
    unfolding run_events.simps by (rule Cons.IH [OF a b])
qed

lemma settled_initial_world: "settled initial_world"
  by (simp add: settled_def consistent_def initial_world_def)

lemma settled_session:
  assumes "\<forall>(v, loadAsync, available) \<in> set_option activeModelRadioInput. available"
    and "\<forall>e \<in> set events. context_available e"
  shows "settled (session activeModelRadioInput events)"
proof -
  obtain r w where s: "setupImagePreviewControls activeModelRadioInput initial_world = (r, w)"
    by (cases "setupImagePreviewControls activeModelRadioInput initial_world")
  have "settled w"
  proof (cases activeModelRadioInput)
    case None
    then show ?thesis using s settled_initial_world by (simp add: setupImagePreviewControls_def)
  next
    case (Some a)
    obtain v loadAsync available where a: "a = (v, loadAsync, available)" by (cases a)
    then have "available" using assms(1) Some by simp
    then have "w = snd (setActiveModel loadAsync True v initial_world)"
      using s Some a by (simp add: setupImagePreviewControls_def)
    then show ?thesis using settled_setActiveModel [OF settled_initial_world] by simp
  qed
  then show ?thesis
    using s assms(2) by (cases r) (simp_all add: session_def settled_run_events)
qed

lemma activeModel_applyTexture [simp]:
  "activeModel (snd (applyTexture available model img col w)) = activeModel w"
proof -
  obtain ms where "snd (applyTexture available model img col w) = w\<lparr>materials := ms\<rparr>"
    using applyTexture_materials by blast
  then show ?thesis by simp
qed

lemma activeModel_setActiveModel:
  assumes "consistent w" and "activeModel (snd (setActiveModel loadAsync available n w)) = Some model"
  shows "activeModel w = Some model \<or> name model = n"
proof -
  obtain r w1 where load: "loadGLTFObject loadAsync n w = (r, w1)"
    by (cases "loadGLTFObject loadAsync n w")
  have c1: "consistent w1"
    using consistent_load [OF assms(1), of loadAsync n] load by simp
  have a1: "activeModel w1 = activeModel w"
    using loadGLTFObject_preview [of loadAsync n w] load by simp
  show ?thesis
  proof (cases r)
    case (Inl e)
    then show ?thesis using load assms(2) a1 by (simp add: setActiveModel_Inl)
  next
    case (Inr found)
    show ?thesis
    proof (cases found)
      case None
      then show ?thesis using load assms(2) a1 Inr by (simp add: setActiveModel_None)
    next
      case (Some newModel)
      have load': "loadGLTFObject loadAsync n w = (Inr (Some newModel), w1)"
        using load Inr Some by simp
      have "name newModel = n"
        using c1 loadGLTFObject_Some [OF load'] by (simp add: consistent_cache_name)
      moreover have "model = newModel"
        using assms(2)
        by (cases available)
           (simp_all add: setActiveModel_loaded [OF c1 load'] setActiveModel_thrown [OF c1 load'])
      ultimately show ?thesis by simp
    qed
  qed
qed

lemma activeModel_image:
  "activeModel (snd (handle_event (ImageUpload imageFile available) w)) = activeModel w"
proof (cases rule: image_cases [of imageFile w])
  case 1
  then show ?thesis by (simp only: handle_image_ignored snd_conv)
next
  case (2 model im)
  show ?thesis
    unfolding 2(2) handle_image_decoded [OF 2(1)] by simp
qed

lemma activeModel_color:
  "activeModel (snd (handle_event (ColorInput v available) w)) = activeModel w"
proof (cases "activeModel w")
  case None
  then show ?thesis by simp
next
  case (Some model)
  show ?thesis
    unfolding handle_color_active [OF Some] by simp
qed

lemma activeModel_handle_event:
  assumes "consistent w" and "activeModel (snd (handle_event e w)) = Some model"
  shows "activeModel w = Some model \<or> selected e = Some (name model)"
proof (cases e)
  case (ModelSelect n loadAsync available)
  then show ?thesis
    using activeModel_setActiveModel [OF assms(1), of loadAsync available n model] assms(2)
    by auto
next
  case (ImageUpload imageFile available)
  then show ?thesis using assms(2) by (simp del: handle_event.simps add: activeModel_image)
next
  case (ColorInput v available)
  then show ?thesis using assms(2) by (simp del: handle_event.simps add: activeModel_color)
qed

lemma named_run_events:
  assumes "consistent w"
    and "\<forall>model. activeModel w = Some model \<longrightarrow> name model \<in> S"
    and "\<forall>e \<in> set events. \<forall>n \<in> set_option (selected e). n \<in> S"
  shows "\<forall>model. activeModel (run_events events w) = Some model \<longrightarrow> name model \<in> S"
  using assms
proof (induction events arbitrary: w)
  case Nil
  then show ?case by simp
next
  case (Cons e events)
  have a: "consistent (snd (handle_event e w))"
    using Cons.prems(1) by (rule consistent_handle_event)
  have b: "\<forall>model. activeModel (snd (handle_event e w)) = Some model \<longrightarrow> name model \<in> S"
  proof (intro allI impI)
    fix model assume "activeModel (snd (handle_event e w)) = Some model"
    then have "activeModel w = Some model \<or> selected e = Some (name model)"
      using Cons.prems(1) by (rule activeModel_handle_event [rotated])
    then show "name model \<in> S"
      using Cons.prems(2,3) by auto
  qed
  have c: "\<forall>e \<in> set events. \<forall>n \<in> set_option (selected e). n \<in> S"
    using Cons.prems(3) by simp
  show ?case
    unfolding run_events.simps by (rule Cons.IH [OF a b c])
qed

lemma named_session:
  assumes "\<forall>(v, loadAsync, available) \<in> set_option activeModelRadioInput. v \<in> S"
    and "\<forall>e \<in> set events. \<forall>n \<in> set_option (selected e). n \<in> S"
    and "activeModel (session activeModelRadioInput events) = Some model"
  shows "name model \<in> S"
proof -
  obtain r w where s: "setupImagePreviewControls activeModelRadioInput initial_world = (r, w)"
    by (cases "setupImagePreviewControls activeModelRadioInput initial_world")
  have c: "consistent w"
    using consistent_setup [of activeModelRadioInput] s by simp
  have n: "\<forall>model. activeModel w = Some model \<longrightarrow> name model \<in> S"
  proof (cases activeModelRadioInput)
    case None
    then show ?thesis using s by (auto simp: setupImagePreviewControls_def initial_world_def)
  next
    case (Some a)
    obtain v loadAsync available where a: "a = (v, loadAsync, available)" by (cases a)
    have w: "w = snd (setActiveModel loadAsync available v initial_world)"
      using s Some a by (simp add: setupImagePreviewControls_def)
    have "v \<in> S" using assms(1) Some a by simp
    moreover have "activeModel initial_world = None" by (simp add: initial_world_def)
    ultimately show ?thesis
      using activeModel_setActiveModel [OF consistent_initial_world, of loadAsync available v] w
      by auto
  qed
  show ?thesis
  proof (cases r)
    case (Inl e)
    then show ?thesis using s n assms(3) by (simp add: session_def)
  next
    case (Inr u)
    then show ?thesis using s assms(3) named_run_events [OF c n assms(2)] by (simp add: session_def)
  qed
qed

lemma meshes_consistent:
  assumes "consistent w"
  shows "meshes (scene w) = [] \<or> meshes (scene w) = map mesh (option_list (activeModel w))"
  using consistent_scene [OF assms] by (cases "activeModel w") auto

lemma meshes_settled:
  assumes "settled w"
  shows "meshes (scene w) = map mesh (option_list (activeModel w))"
  using settled_scene [OF assms] by (cases "activeModel w") simp_all

lemmas world_defs = session_def setupImagePreviewControls_def setActiveModel_def
  loadGLTFObject_def loadGLTFObject_begin_def loadGLTFObject_resume_def applyTexture_def
  initial_world_def model_url_def scene_remove_def scene_add_def createImageBitmap_def
  setupBaseCanvas_eq setupBaseCanvas_unavailable DRAW_TEXTURE_MAP_def Let_def

text \<open>
  Claim C1 says that after every event the material of the attached mesh is the composite
  of the current colour and image.  When the canvas of a colour change gives no context,
  \<open>setupBaseCanvas\<close> throws after the handler has stored the new colour: with the cup
  selected at the start, the colour is then \<open>#112233\<close> and the cup's mesh, still in
  the scene, carries the white fill.
\<close>

theorem preview_state_counterexample:
  "activeModel (session (Some (''cup'', \<lambda>u. FirstChildMesh, True)) [ColorInput ''#112233'' False]) =
     Some \<lparr>name = ''cup'', mesh = 0\<rparr> \<and>
   meshes (scene (session (Some (''cup'', \<lambda>u. FirstChildMesh, True)) [ColorInput ''#112233'' False])) = [0] \<and>
   color (session (Some (''cup'', \<lambda>u. FirstChildMesh, True)) [ColorInput ''#112233'' False]) = ''#112233'' \<and>
   activeImage (session (Some (''cup'', \<lambda>u. FirstChildMesh, True)) [ColorInput ''#112233'' False]) = None \<and>
   composite ''cup'' ''#112233'' None =
     Inr (Some \<lparr>canvas_width = 2048, canvas_height = 2048,
                painted = [FillRect ''#112233'' identity_matrix 0 0 2048 2048]\<rparr>) \<and>
   materials (session (Some (''cup'', \<lambda>u. FirstChildMesh, True)) [ColorInput ''#112233'' False]) 0 =
     MeshStandardMaterial \<lparr>canvas_width = 2048, canvas_height = 2048,
                painted = [FillRect ''#ffffff'' identity_matrix 0 0 2048 2048]\<rparr> \<and>
   materials (session (Some (''cup'', \<lambda>u. FirstChildMesh, True)) [ColorInput ''#112233'' False]) 0 \<noteq>
     MeshStandardMaterial \<lparr>canvas_width = 2048, canvas_height = 2048,
                painted = [FillRect ''#112233'' identity_matrix 0 0 2048 2048]\<rparr>"
  by (simp add: world_defs composite_no_image cup_def ctx_defs)

text \<open>
  Claim C1, amended.  In every session whose model selections (the one at the start
  included) name \<open>cup\<close> or \<open>cushion\<close>, with the events handled one after the
  other, after every event: the scene holds no mesh but the active model's (it holds none
  without an active model).  If moreover every canvas made so far has given its 2D
  context, the active model's mesh is in the scene and its material is the composite of
  the active model's name with the current colour and the current image.  The statement
  is about the state after any list of events, hence after each single event.
\<close>

theorem preview_state_invariant:
  assumes "\<forall>(v, loadAsync, available) \<in> set_option activeModelRadioInput. v \<in> {''cup'', ''cushion''}"
    and "\<forall>e \<in> set events. \<forall>n \<in> set_option (selected e). n \<in> {''cup'', ''cushion''}"
  shows "let w = session activeModelRadioInput events in
     (case activeModel w of
        None \<Rightarrow> meshes (scene w) = []
      | Some model \<Rightarrow> meshes (scene w) = [] \<or> meshes (scene w) = [mesh model]) \<and>
     ((\<forall>(v, loadAsync, available) \<in> set_option activeModelRadioInput. available) \<and>
      (\<forall>e \<in> set events. context_available e) \<longrightarrow>
      (case activeModel w of
         None \<Rightarrow> meshes (scene w) = []
       | Some model \<Rightarrow>
           meshes (scene w) = [mesh model] \<and>
           (\<exists>cv. composite (name model) (color w) (activeImage w) = Inr (Some cv) \<and>
                 materials w (mesh model) = MeshStandardMaterial cv)))"
proof -
  define w where "w = session activeModelRadioInput events"
  have c: "consistent w"
    unfolding w_def by (rule consistent_session)
  have attached: "case activeModel w of
        None \<Rightarrow> meshes (scene w) = []
      | Some model \<Rightarrow> meshes (scene w) = [] \<or> meshes (scene w) = [mesh model]"
    using meshes_consistent [OF c] by (cases "activeModel w") simp_all
  have current: "case activeModel w of
         None \<Rightarrow> meshes (scene w) = []
       | Some model \<Rightarrow>
           meshes (scene w) = [mesh model] \<and>
           (\<exists>cv. composite (name model) (color w) (activeImage w) = Inr (Some cv) \<and>
                 materials w (mesh model) = MeshStandardMaterial cv)"
    if av: "\<forall>(v, loadAsync, available) \<in> set_option activeModelRadioInput. available"
      "\<forall>e \<in> set events. context_available e"
  proof -
    have s: "settled w"
      unfolding w_def using av by (rule settled_session)
    show ?thesis
    proof (cases "activeModel w")
      case None
      then show ?thesis using meshes_settled [OF s] by simp
    next
      case (Some model)
      have "name model \<in> {''cup'', ''cushion''}"
        using named_session [OF assms] Some by (simp add: w_def)
      then obtain cv where cv: "composite (name model) (color w) (activeImage w) = Inr (Some cv)"
        using composite_supported [of "name model" "color w" "activeImage w"] by auto
      then have "materials w (mesh model) = MeshStandardMaterial cv"
        using settled_material [OF s Some] by simp
      then show ?thesis
        using Some cv meshes_settled [OF s] by simp
    qed
  qed
  show ?thesis
    unfolding Let_def w_def [symmetric] using attached current by blast
qed

lemma example_session:
  "activeModel (session (Some (''cup'', \<lambda>u. FirstChildMesh, True))
       [ImageUpload (Some (Decodable (ImageBitmap 100 100 1))) True, ColorInput ''#112233'' True,
        ModelSelect ''cushion'' (\<lambda>u. FirstChildMesh) True]) = Some \<lparr>name = ''cushion'', mesh = 1\<rparr> \<and>
   activeImage (session (Some (''cup'', \<lambda>u. FirstChildMesh, True))
       [ImageUpload (Some (Decodable (ImageBitmap 100 100 1))) True, ColorInput ''#112233'' True,
        ModelSelect ''cushion'' (\<lambda>u. FirstChildMesh) True]) = Some (ImageBitmap 100 100 1) \<and>
   color (session (Some (''cup'', \<lambda>u. FirstChildMesh, True))
       [ImageUpload (Some (Decodable (ImageBitmap 100 100 1))) True, ColorInput ''#112233'' True,
        ModelSelect ''cushion'' (\<lambda>u. FirstChildMesh) True]) = ''#112233''"
  by (simp add: world_defs)

theorem preview_state_invariant_witness:
  "activeModel (session (Some (''cup'', \<lambda>u. FirstChildMesh, True))
       [ImageUpload (Some (Decodable (ImageBitmap 100 100 1))) True, ColorInput ''#112233'' True,
        ModelSelect ''cushion'' (\<lambda>u. FirstChildMesh) True]) = Some \<lparr>name = ''cushion'', mesh = 1\<rparr> \<and>
   meshes (scene (session (Some (''cup'', \<lambda>u. FirstChildMesh, True))
       [ImageUpload (Some (Decodable (ImageBitmap 100 100 1))) True, ColorInput ''#112233'' True,
        ModelSelect ''cushion'' (\<lambda>u. FirstChildMesh) True])) = [1] \<and>
   (\<exists>cv. composite ''cushion'' ''#112233'' (Some (ImageBitmap 100 100 1)) = Inr (Some cv) \<and>
      materials (session (Some (''cup'', \<lambda>u. FirstChildMesh, True))
       [ImageUpload (Some (Decodable (ImageBitmap 100 100 1))) True, ColorInput ''#112233'' True,
        ModelSelect ''cushion'' (\<lambda>u. FirstChildMesh) True]) 1 = MeshStandardMaterial cv)"
  using preview_state_invariant [of "Some (''cup'', \<lambda>u. FirstChildMesh, True)"
      "[ImageUpload (Some (Decodable (ImageBitmap 100 100 1))) True, ColorInput ''#112233'' True,
        ModelSelect ''cushion'' (\<lambda>u. FirstChildMesh) True]"] example_session
  by (simp add: Let_def)

lemma reselect_unchanged:
  assumes "settled w" and "activeModel w = Some model"
  shows "setActiveModel loadAsync True (name model) w = (Inr (), w)"
proof -
  have c: "consistent w" using assms(1) by (rule settled_consistent)
  have load: "loadGLTFObject loadAsync (name model) w = (Inr (Some model), w)"
    using consistent_active_cached [OF c assms(2)] by (rule loadGLTFObject_cached)
  have sc: "scene w = [AmbientLight, DirectionalLight, Mesh (mesh model)]"
    using settled_scene [OF assms(1)] assms(2) by simp
  have same: "w\<lparr>scene := scene w, activeModel := activeModel w\<rparr> = w"
    by simp
  show ?thesis
  proof (cases rule: composite_cases [of "name model" "color w" "activeImage w"])
    case 1
    then show ?thesis
      using same by (simp add: setActiveModel_loaded [OF c load] sc assms(2))
  next
    case (2 cv)
    have "materials w (mesh model) = MeshStandardMaterial cv"
      using assms 2 by (rule settled_material)
    then have "(materials w)(mesh model := MeshStandardMaterial cv) = materials w"
      by auto
    then show ?thesis
      using same 2 by (simp add: setActiveModel_loaded [OF c load] sc assms(2))
  qed
qed

text \<open>
  Claim C10 says that selecting the active model again leaves the state as it was.  When
  the canvas of the second selection gives no context, the handler has removed the mesh
  from the scene when \<open>setupBaseCanvas\<close> throws, and never adds it again.  And after
  a colour change that threw, a second selection whose canvas does give its context
  replaces the white material by the composite of the new colour.
\<close>

theorem reselect_counterexample:
  "activeModel (session (Some (''cup'', \<lambda>u. FirstChildMesh, True)) []) =
     Some \<lparr>name = ''cup'', mesh = 0\<rparr> \<and>
   scene (session (Some (''cup'', \<lambda>u. FirstChildMesh, True)) []) =
     [AmbientLight, DirectionalLight, Mesh 0] \<and>
   fst (handle_event (ModelSelect ''cup'' (\<lambda>u. FirstChildMesh) False)
          (session (Some (''cup'', \<lambda>u. FirstChildMesh, True)) [])) = Inl Canvas2DContextError \<and>
   scene (snd (handle_event (ModelSelect ''cup'' (\<lambda>u. FirstChildMesh) False)
          (session (Some (''cup'', \<lambda>u. FirstChildMesh, True)) []))) =
     [AmbientLight, DirectionalLight] \<and>
   activeModel (session (Some (''cup'', \<lambda>u. FirstChildMesh, True)) [ColorInput ''#112233'' False]) =
     Some \<lparr>name = ''cup'', mesh = 0\<rparr> \<and>
   materials (session (Some (''cup'', \<lambda>u. FirstChildMesh, True)) [ColorInput ''#112233'' False]) 0 =
     MeshStandardMaterial \<lparr>canvas_width = 2048, canvas_height = 2048,
                painted = [FillRect ''#ffffff'' identity_matrix 0 0 2048 2048]\<rparr> \<and>
   fst (handle_event (ModelSelect ''cup'' (\<lambda>u. FirstChildMesh) True)
          (session (Some (''cup'', \<lambda>u. FirstChildMesh, True)) [ColorInput ''#112233'' False])) = Inr () \<and>
   materials (snd (handle_event (ModelSelect ''cup'' (\<lambda>u. FirstChildMesh) True)
          (session (Some (''cup'', \<lambda>u. FirstChildMesh, True)) [ColorInput ''#112233'' False]))) 0 =
     MeshStandardMaterial \<lparr>canvas_width = 2048, canvas_height = 2048,
                painted = [FillRect ''#112233'' identity_matrix 0 0 2048 2048]\<rparr>"
  by (simp add: world_defs cup_def ctx_defs)

text \<open>
  Claim C10, amended.  In a state reached by a session in which every canvas has given
  its 2D context, selecting the model that is already active, with a canvas that gives its
  context, returns the cached entry itself and leaves the whole state as it was: the same
  model is active, the scene has the same children in the same order (the mesh is removed
  and added again at the end, where it was), nothing is fetched, and the material bound to
  the mesh has the content of the one it replaces.  Materials are compared by the canvas
  they hold, not by object identity.
\<close>

theorem reselect_active_model_idempotent:
  assumes "\<forall>(v, loadAsync, available) \<in> set_option activeModelRadioInput. available"
    and "\<forall>e \<in> set events. context_available e"
    and "activeModel (session activeModelRadioInput events) = Some model"
  shows "loadGLTFObject loadAsync (name model) (session activeModelRadioInput events) =
           (Inr (Some model), session activeModelRadioInput events) \<and>
         handle_event (ModelSelect (name model) loadAsync True) (session activeModelRadioInput events) =
           (Inr (), session activeModelRadioInput events)"
proof -
  have s: "settled (session activeModelRadioInput events)"
    using assms(1,2) by (rule settled_session)
  have "loadGLTFObject loadAsync (name model) (session activeModelRadioInput events) =
           (Inr (Some model), session activeModelRadioInput events)"
    using consistent_active_cached [OF settled_consistent [OF s] assms(3)]
    by (rule loadGLTFObject_cached)
  then show ?thesis
    using reselect_unchanged [OF s assms(3)] by simp
qed

theorem reselect_active_model_idempotent_witness:
  "activeModel (session (Some (''cup'', \<lambda>u. FirstChildMesh, True))
       [ImageUpload (Some (Decodable (ImageBitmap 100 100 1))) True, ColorInput ''#112233'' True,
        ModelSelect ''cushion'' (\<lambda>u. FirstChildMesh) True]) = Some \<lparr>name = ''cushion'', mesh = 1\<rparr> \<and>
   handle_event (ModelSelect ''cushion'' (\<lambda>u. LoadRejected) True)
     (session (Some (''cup'', \<lambda>u. FirstChildMesh, True))
       [ImageUpload (Some (Decodable (ImageBitmap 100 100 1))) True, ColorInput ''#112233'' True,
        ModelSelect ''cushion'' (\<lambda>u. FirstChildMesh) True]) =
     (Inr (), session (Some (''cup'', \<lambda>u. FirstChildMesh, True))
       [ImageUpload (Some (Decodable (ImageBitmap 100 100 1))) True, ColorInput ''#112233'' True,
        ModelSelect ''cushion'' (\<lambda>u. FirstChildMesh) True])"
  using reselect_active_model_idempotent [of "Some (''cup'', \<lambda>u. FirstChildMesh, True)"
      "[ImageUpload (Some (Decodable (ImageBitmap 100 100 1))) True, ColorInput ''#112233'' True,
        ModelSelect ''cushion'' (\<lambda>u. FirstChildMesh) True]" "\<lparr>name = ''cushion'', mesh = 1\<rparr>"
      "\<lambda>u. LoadRejected"] example_session
  by simp

text \<open>
  Claim C4 says that an image uploaded while no model is active is retained.  The handler
  returns before it decodes the file: at the start the upload of a decodable image leaves
  \<open>activeImage\<close> empty, and the cup selected next gets the flat white fill.
\<close>

theorem upload_without_model_counterexample:
  "activeModel initial_world = None \<and>
   activeImage (snd (handle_event (ImageUpload (Some (Decodable (ImageBitmap 64 64 1))) True) initial_world))
     \<noteq> Some (ImageBitmap 64 64 1) \<and>
   handle_event (ModelSelect ''cup'' (\<lambda>u. FirstChildMesh) True)
       (snd (handle_event (ImageUpload (Some (Decodable (ImageBitmap 64 64 1))) True) initial_world)) =
     (Inr (),
      initial_world\<lparr>ModelCache := [''cup'' \<mapsto> \<lparr>name = ''cup'', mesh = 0\<rparr>],
        requested := [''/models/cup.glb''], next_mesh := 1,
        materials := (\<lambda>m. Original)(0 := MeshStandardMaterial
           \<lparr>canvas_width = 2048, canvas_height = 2048,
            painted = [FillRect ''#ffffff'' identity_matrix 0 0 2048 2048]\<rparr>),
        scene := [AmbientLight, DirectionalLight, Mesh 0],
        activeModel := Some \<lparr>name = ''cup'', mesh = 0\<rparr>\<rparr>)"
  by (simp add: world_defs cup_def ctx_defs)

lemma select_from_inactive:
  assumes "consistent w" and "activeModel w = None"
    and "handle_event (ModelSelect n loadAsync available) w = (Inr (), w2)"
    and "activeModel w2 = Some model"
  shows "name model = n \<and> color w2 = color w \<and> activeImage w2 = activeImage w \<and>
         (\<forall>cv. composite n (color w) (activeImage w) = Inr (Some cv) \<longrightarrow>
               materials w2 (mesh model) = MeshStandardMaterial cv)"
proof -
  obtain r w1 where load: "loadGLTFObject loadAsync n w = (r, w1)"
    by (cases "loadGLTFObject loadAsync n w")
  have c1: "consistent w1"
    using consistent_load [OF assms(1), of loadAsync n] load by simp
  have p: "activeModel w1 = activeModel w \<and> color w1 = color w \<and> activeImage w1 = activeImage w"
    using loadGLTFObject_preview [of loadAsync n w] load by simp
  show ?thesis
  proof (cases r)
    case (Inl e)
    then show ?thesis using load assms(3) by (simp add: setActiveModel_Inl)
  next
    case (Inr found)
    show ?thesis
    proof (cases found)
      case None
      then show ?thesis using load Inr assms(2,3,4) p by (auto simp: setActiveModel_None)
    next
      case (Some newModel)
      have load': "loadGLTFObject loadAsync n w = (Inr (Some newModel), w1)"
        using load Inr Some by simp
      have nm: "name newModel = n"
        using c1 loadGLTFObject_Some [OF load'] by (simp add: consistent_cache_name)
      show ?thesis
      proof (cases available)
        case False
        then show ?thesis using assms(3) by (simp add: setActiveModel_thrown [OF c1 load'])
      next
        case True
        show ?thesis
        proof (cases rule: composite_cases [of "name newModel" "color w1" "activeImage w1"])
          case 1
          then show ?thesis using True assms(3,4) nm p
            by (auto simp: setActiveModel_loaded [OF c1 load'])
        next
          case (2 cv)
          then show ?thesis using True assms(3,4) nm p
            by (auto simp: setActiveModel_loaded [OF c1 load'])
        qed
      qed
    qed
  qed
qed

text \<open>
  Claim C4, amended.  In a state reached by a session in which no model is active, an
  image upload is ignored whatever the file is: the handler returns normally and the whole
  state is unchanged; there is no active image before or after it; and a following
  selection of \<open>cup\<close> or \<open>cushion\<close> that succeeds (it returns normally and
  a model is active after it) binds to the model's mesh the composite of the current colour
  without an image.
\<close>

theorem upload_without_model_is_ignored:
  assumes "activeModel (session activeModelRadioInput events) = None"
    and "n \<in> {''cup'', ''cushion''}"
  shows "let w = session activeModelRadioInput events;
             w1 = snd (handle_event (ImageUpload imageFile available) w);
             w2 = snd (handle_event (ModelSelect n loadAsync available') w1)
         in handle_event (ImageUpload imageFile available) w = (Inr (), w) \<and>
            activeImage w = None \<and> activeImage w1 = None \<and>
            (\<forall>model. fst (handle_event (ModelSelect n loadAsync available') w1) = Inr () \<and>
                     activeModel w2 = Some model \<longrightarrow>
               (\<exists>cv. composite n (color w) None = Inr (Some cv) \<and>
                     materials w2 (mesh model) = MeshStandardMaterial cv))"
proof -
  define w where "w = session activeModelRadioInput events"
  have c: "consistent w"
    unfolding w_def by (rule consistent_session)
  have none: "activeModel w = None"
    using assms(1) by (simp add: w_def)
  have ignored: "handle_event (ImageUpload imageFile available) w = (Inr (), w)"
    by (rule handle_image_ignored) (simp add: none)
  have img: "activeImage w = None"
    using c none by (rule consistent_no_image)
  define w2 where "w2 = snd (handle_event (ModelSelect n loadAsync available') w)"
  have bound: "\<forall>model. fst (handle_event (ModelSelect n loadAsync available') w) = Inr () \<and>
                     activeModel w2 = Some model \<longrightarrow>
       (\<exists>cv. composite n (color w) None = Inr (Some cv) \<and>
             materials w2 (mesh model) = MeshStandardMaterial cv)"
  proof (intro allI impI)
    fix model
    assume a: "fst (handle_event (ModelSelect n loadAsync available') w) = Inr () \<and>
                     activeModel w2 = Some model"
    then have h: "handle_event (ModelSelect n loadAsync available') w = (Inr (), w2)"
      unfolding w2_def by (metis prod.collapse)
    obtain cv where cv: "composite n (color w) None = Inr (Some cv)"
      using composite_supported [of n "color w" None] assms(2) by auto
    have "materials w2 (mesh model) = MeshStandardMaterial cv"
      using select_from_inactive [OF c none h] a cv img by simp
    then show "\<exists>cv. composite n (color w) None = Inr (Some cv) \<and>
             materials w2 (mesh model) = MeshStandardMaterial cv"
      using cv by blast
  qed
  show ?thesis
    unfolding Let_def w_def [symmetric] using ignored img bound by (simp add: w2_def)
qed

theorem upload_without_model_is_ignored_witness:
  "activeModel (session None [ColorInput ''#112233'' True]) = None \<and>
   ''cup'' \<in> {''cup'', ''cushion''} \<and>
   handle_event (ImageUpload (Some (Decodable (ImageBitmap 64 64 1))) True) (session None [ColorInput ''#112233'' True]) =
     (Inr (), session None [ColorInput ''#112233'' True]) \<and>
   fst (handle_event (ModelSelect ''cup'' (\<lambda>u. FirstChildMesh) True)
     (snd (handle_event (ImageUpload (Some (Decodable (ImageBitmap 64 64 1))) True)
        (session None [ColorInput ''#112233'' True])))) = Inr () \<and>
   activeModel (snd (handle_event (ModelSelect ''cup'' (\<lambda>u. FirstChildMesh) True)
     (snd (handle_event (ImageUpload (Some (Decodable (ImageBitmap 64 64 1))) True)
        (session None [ColorInput ''#112233'' True])))))
     = Some \<lparr>name = ''cup'', mesh = 0\<rparr> \<and>
   materials (snd (handle_event (ModelSelect ''cup'' (\<lambda>u. FirstChildMesh) True)
     (snd (handle_event (ImageUpload (Some (Decodable (ImageBitmap 64 64 1))) True)
        (session None [ColorInput ''#112233'' True]))))) 0
     = MeshStandardMaterial \<lparr>canvas_width = 2048, canvas_height = 2048,
            painted = [FillRect ''#112233'' identity_matrix 0 0 2048 2048]\<rparr>"
  using upload_without_model_is_ignored [of None "[ColorInput ''#112233'' True]" "''cup''"
      "Some (Decodable (ImageBitmap 64 64 1))" True "\<lambda>u. FirstChildMesh" True]
  by (simp add: world_defs cup_def ctx_defs)

text \<open>
  Claim C7.  From any state, when \<open>loadGLTFObject\<close> gives no model for a selection
  (it returns \<open>null\<close>, or it raises), the selection leaves the active model, image
  and colour, the children of the scene, the material of every mesh and the cache as
  they were.  Only the log of requests grows.
\<close>

theorem model_select_failure_keeps_state:
  assumes "fst (loadGLTFObject loadAsync n w) = Inr None \<or> fst (loadGLTFObject loadAsync n w) = Inl e"
  shows "let w' = snd (handle_event (ModelSelect n loadAsync available) w) in
           activeModel w' = activeModel w \<and> activeImage w' = activeImage w \<and> color w' = color w \<and>
           scene w' = scene w \<and> materials w' = materials w \<and> ModelCache w' = ModelCache w \<and>
           next_mesh w' = next_mesh w"
proof (cases "ModelCache w n")
  case (Some cached)
  then show ?thesis using assms by (simp add: loadGLTFObject_cached)
next
  case None
  show ?thesis
  proof (cases "loadAsync (model_url n)")
    case LoadRejected
    then have "loadGLTFObject loadAsync n w = (Inl LoadError, w\<lparr>requested := requested w @ [model_url n]\<rparr>)"
      using None by (simp add: loadGLTFObject_uncached)
    then show ?thesis by (simp add: setActiveModel_Inl)
  next
    case FirstChildOther
    then have "loadGLTFObject loadAsync n w = (Inr None, w\<lparr>requested := requested w @ [model_url n]\<rparr>)"
      using None by (simp add: loadGLTFObject_uncached)
    then show ?thesis by (simp add: setActiveModel_None)
  next
    case FirstChildMesh
    then show ?thesis using assms None by (simp add: loadGLTFObject_uncached)
  qed
qed

theorem model_select_failure_keeps_state_witness:
  "fst (loadGLTFObject (\<lambda>u. FirstChildOther) ''cushion''
      (session (Some (''cup'', \<lambda>u. FirstChildMesh, True)) [ColorInput ''#112233'' True])) = Inr None \<and>
   activeModel (snd (handle_event (ModelSelect ''cushion'' (\<lambda>u. FirstChildOther) True)
      (session (Some (''cup'', \<lambda>u. FirstChildMesh, True)) [ColorInput ''#112233'' True]))) =
     Some \<lparr>name = ''cup'', mesh = 0\<rparr> \<and>
   scene (snd (handle_event (ModelSelect ''cushion'' (\<lambda>u. FirstChildOther) True)
      (session (Some (''cup'', \<lambda>u. FirstChildMesh, True)) [ColorInput ''#112233'' True]))) =
     [AmbientLight, DirectionalLight, Mesh 0] \<and>
   materials (snd (handle_event (ModelSelect ''cushion'' (\<lambda>u. FirstChildOther) True)
      (session (Some (''cup'', \<lambda>u. FirstChildMesh, True)) [ColorInput ''#112233'' True]))) =
     materials (session (Some (''cup'', \<lambda>u. FirstChildMesh, True)) [ColorInput ''#112233'' True])"
  using model_select_failure_keeps_state [of "\<lambda>u. FirstChildOther" "''cushion''"
      "session (Some (''cup'', \<lambda>u. FirstChildMesh, True)) [ColorInput ''#112233'' True]" LoadError True]
  by (simp add: world_defs)

lemma cache_persists:
  assumes "ModelCache w n = Some model"
  shows "ModelCache (snd (loadGLTFObject loadAsync k w)) n = Some model"
proof (cases "ModelCache w k")
  case (Some cached)
  then show ?thesis using assms by (simp add: loadGLTFObject_cached)
next
  case None
  then have "k \<noteq> n" using assms by auto
  then show ?thesis using assms None
    by (cases "loadAsync (model_url k)") (simp_all add: loadGLTFObject_uncached)
qed

lemma cache_persists_all:
  assumes "ModelCache w n = Some model"
  shows "ModelCache (load_all calls w) n = Some model"
  using assms
proof (induction calls arbitrary: w)
  case Nil
  then show ?case by simp
next
  case (Cons c calls)
  obtain k loadAsync where c: "c = (k, loadAsync)" by (cases c)
  have "ModelCache (snd (loadGLTFObject loadAsync k w)) n = Some model"
    using Cons.prems by (rule cache_persists)
  then have "ModelCache (load_all calls (snd (loadGLTFObject loadAsync k w))) n = Some model"
    by (rule Cons.IH)
  then show ?case by (simp add: c)
qed

lemma begin_cached:
  assumes "ModelCache w n = Some model"
  shows "take_step (Begin n) w = (Some (Inr (Some model)), w)"
  using assms by (simp add: loadGLTFObject_begin_def)

lemma step_ends_cached:
  assumes "take_step (Begin n) w = (Some (Inr (Some model)), w1) \<or>
           take_step (Resume n outcome) w = (Some (Inr (Some model)), w1)"
  shows "ModelCache w1 n = Some model"
  using assms
proof
  assume "take_step (Begin n) w = (Some (Inr (Some model)), w1)"
  then show ?thesis
    by (cases "ModelCache w n") (auto simp: loadGLTFObject_begin_def)
next
  assume "take_step (Resume n outcome) w = (Some (Inr (Some model)), w1)"
  then show ?thesis
    by (cases outcome) (auto simp: loadGLTFObject_resume_def Let_def)
qed

lemma step_keeps_entry:
  assumes "ModelCache w n = Some model" and "\<forall>outcome. t \<noteq> Resume n outcome"
  shows "ModelCache (snd (take_step t w)) n = Some model"
proof (cases t)
  case (Begin k)
  then show ?thesis using assms(1) by (simp add: loadGLTFObject_begin_def)
next
  case (Resume k outcome)
  then have "k \<noteq> n" using assms(2) by auto
  then show ?thesis using assms(1) Resume
    by (cases outcome) (simp_all add: loadGLTFObject_resume_def Let_def)
qed

lemma steps_keep_entry:
  assumes "ModelCache w n = Some model" and "\<forall>t \<in> set steps. \<forall>outcome. t \<noteq> Resume n outcome"
  shows "ModelCache (run_steps steps w) n = Some model"
  using assms
proof (induction steps arbitrary: w)
  case Nil
  then show ?case by simp
next
  case (Cons t steps)
  have a: "ModelCache (snd (take_step t w)) n = Some model"
    using Cons.prems by (simp add: step_keeps_entry)
  have b: "\<forall>t \<in> set steps. \<forall>outcome. t \<noteq> Resume n outcome"
    using Cons.prems(2) by simp
  show ?case
    unfolding run_steps.simps by (rule Cons.IH [OF a b])
qed

text \<open>
  Claim C9 says that a second call returns the mesh of a first call that succeeded,
  without a fetch.  Two calls for \<open>cushion\<close> that overlap both find the cache
  empty and both fetch; the first to resume returns mesh 0, the second stores and returns
  mesh 1, and a later call returns mesh 1.
\<close>

theorem overlapping_loads_counterexample:
  "fst (take_step (Begin ''cushion'') initial_world) = None \<and>
   fst (take_step (Begin ''cushion'') (run_steps [Begin ''cushion''] initial_world)) = None \<and>
   fst (take_step (Resume ''cushion'' FirstChildMesh)
          (run_steps [Begin ''cushion'', Begin ''cushion''] initial_world)) =
     Some (Inr (Some \<lparr>name = ''cushion'', mesh = 0\<rparr>)) \<and>
   fst (take_step (Resume ''cushion'' FirstChildMesh)
          (run_steps [Begin ''cushion'', Begin ''cushion'', Resume ''cushion'' FirstChildMesh] initial_world)) =
     Some (Inr (Some \<lparr>name = ''cushion'', mesh = 1\<rparr>)) \<and>
   requested (run_steps [Begin ''cushion'', Begin ''cushion'', Resume ''cushion'' FirstChildMesh,
                         Resume ''cushion'' FirstChildMesh] initial_world) =
     [''/models/cushion.glb'', ''/models/cushion.glb''] \<and>
   fst (take_step (Begin ''cushion'')
          (run_steps [Begin ''cushion'', Begin ''cushion'', Resume ''cushion'' FirstChildMesh,
                      Resume ''cushion'' FirstChildMesh] initial_world)) =
     Some (Inr (Some \<lparr>name = ''cushion'', mesh = 1\<rparr>))"
  by (simp add: loadGLTFObject_begin_def loadGLTFObject_resume_def initial_world_def model_url_def
      Let_def)

text \<open>
  Claim C9, amended.  When a call of \<open>loadGLTFObject\<close> for a name ends with a
  model, and no call for that name that was suspended before resumes afterwards, then a
  later call for the name returns the same entry with the same mesh, at once and without
  changing anything (so nothing is fetched), whatever calls for other names begin or
  resume in between.  In particular this holds when calls do not overlap: after a call
  that returned a model and any calls run one after the other, a call for the same name
  returns the same entry and changes nothing, whatever the loader would do.
\<close>

theorem second_load_returns_same_mesh:
  "(take_step (Begin n) w = (Some (Inr (Some model)), w1) \<or>
    take_step (Resume n outcome) w = (Some (Inr (Some model)), w1) \<longrightarrow>
    (\<forall>t \<in> set steps. \<forall>outcome. t \<noteq> Resume n outcome) \<longrightarrow>
    take_step (Begin n) (run_steps steps w1) = (Some (Inr (Some model)), run_steps steps w1)) \<and>
   (loadGLTFObject loadAsync n w = (Inr (Some model), w1) \<longrightarrow>
    loadGLTFObject loadAsync' n (load_all calls w1) = (Inr (Some model), load_all calls w1))"
proof (intro conjI impI)
  assume "take_step (Begin n) w = (Some (Inr (Some model)), w1) \<or>
    take_step (Resume n outcome) w = (Some (Inr (Some model)), w1)"
  then have "ModelCache w1 n = Some model"
    by (rule step_ends_cached)
  moreover assume "\<forall>t \<in> set steps. \<forall>outcome. t \<noteq> Resume n outcome"
  ultimately have "ModelCache (run_steps steps w1) n = Some model"
    by (rule steps_keep_entry)
  then show "take_step (Begin n) (run_steps steps w1) = (Some (Inr (Some model)), run_steps steps w1)"
    by (rule begin_cached)
next
  assume "loadGLTFObject loadAsync n w = (Inr (Some model), w1)"
  then have "ModelCache w1 n = Some model"
    by (rule loadGLTFObject_Some)
  then have "ModelCache (load_all calls w1) n = Some model"
    by (rule cache_persists_all)
  then show "loadGLTFObject loadAsync' n (load_all calls w1) = (Inr (Some model), load_all calls w1)"
    by (rule loadGLTFObject_cached)
qed

theorem second_load_returns_same_mesh_witness:
  "take_step (Resume ''cushion'' FirstChildMesh) (run_steps [Begin ''cushion''] initial_world) =
     (Some (Inr (Some \<lparr>name = ''cushion'', mesh = 0\<rparr>)),
      snd (take_step (Resume ''cushion'' FirstChildMesh) (run_steps [Begin ''cushion''] initial_world))) \<and>
   take_step (Begin ''cushion'')
     (run_steps [Begin ''cup'', Begin ''cushion'', Resume ''cup'' FirstChildMesh]
        (snd (take_step (Resume ''cushion'' FirstChildMesh) (run_steps [Begin ''cushion''] initial_world)))) =
     (Some (Inr (Some \<lparr>name = ''cushion'', mesh = 0\<rparr>)),
      run_steps [Begin ''cup'', Begin ''cushion'', Resume ''cup'' FirstChildMesh]
        (snd (take_step (Resume ''cushion'' FirstChildMesh) (run_steps [Begin ''cushion''] initial_world)))) \<and>
   requested (run_steps [Begin ''cup'', Begin ''cushion'', Resume ''cup'' FirstChildMesh]
        (snd (take_step (Resume ''cushion'' FirstChildMesh) (run_steps [Begin ''cushion''] initial_world)))) =
     [''/models/cushion.glb'', ''/models/cup.glb''] \<and>
   loadGLTFObject (\<lambda>u. FirstChildMesh) ''cup'' initial_world =
     (Inr (Some \<lparr>name = ''cup'', mesh = 0\<rparr>),
      snd (loadGLTFObject (\<lambda>u. FirstChildMesh) ''cup'' initial_world)) \<and>
   fst (loadGLTFObject (\<lambda>u. LoadRejected) ''cup''
     (load_all [(''cushion'', \<lambda>u. FirstChildMesh)]
        (snd (loadGLTFObject (\<lambda>u. FirstChildMesh) ''cup'' initial_world)))) =
     Inr (Some \<lparr>name = ''cup'', mesh = 0\<rparr>)"
  using second_load_returns_same_mesh [of "''cushion''" "run_steps [Begin ''cushion''] initial_world"
      "\<lparr>name = ''cushion'', mesh = 0\<rparr>"
      "snd (take_step (Resume ''cushion'' FirstChildMesh) (run_steps [Begin ''cushion''] initial_world))"
      FirstChildMesh "[Begin ''cup'', Begin ''cushion'', Resume ''cup'' FirstChildMesh]"]
  by (simp add: world_defs)

text \<open>
  Claim C6 says that an asset is fetched at most once, also when the first load did not
  give a mesh.  Two calls for \<open>cup\<close> whose first child is not a mesh fetch twice;
  so does a rejected load followed by a successful one.
\<close>

theorem fetch_once_counterexample:
  "requested (load_all [(''cup'', \<lambda>u. FirstChildOther), (''cup'', \<lambda>u. FirstChildOther)] initial_world) =
     [''/models/cup.glb'', ''/models/cup.glb''] \<and>
   requested (load_all [(''cup'', \<lambda>u. LoadRejected), (''cup'', \<lambda>u. FirstChildMesh)] initial_world) =
     [''/models/cup.glb'', ''/models/cup.glb'']"
  by (simp add: world_defs)

lemma model_url_inj [simp]: "model_url k = model_url n \<longleftrightarrow> k = n"
  by (simp add: model_url_def)

lemma requested_load:
  "requested (snd (loadGLTFObject loadAsync n w)) =
     requested w @ (if ModelCache w n = None then [model_url n] else [])"
proof (cases "ModelCache w n")
  case None
  then show ?thesis
    by (cases "loadAsync (model_url n)") (simp_all add: loadGLTFObject_uncached)
next
  case (Some cached)
  then show ?thesis by (simp add: loadGLTFObject_cached)
qed

lemma cache_other:
  assumes "k \<noteq> n"
  shows "ModelCache (snd (loadGLTFObject loadAsync k w)) n = ModelCache w n"
proof (cases "ModelCache w k")
  case None
  then show ?thesis using assms
    by (cases "loadAsync (model_url k)") (simp_all add: loadGLTFObject_uncached)
next
  case (Some cached)
  then show ?thesis by (simp add: loadGLTFObject_cached)
qed

lemma cache_after_success:
  assumes "loadAsync (model_url n) = FirstChildMesh"
  shows "ModelCache (snd (loadGLTFObject loadAsync n w)) n \<noteq> None"
proof (cases "ModelCache w n")
  case None
  then show ?thesis using assms by (simp add: loadGLTFObject_uncached)
next
  case (Some cached)
  then show ?thesis by (simp add: loadGLTFObject_cached)
qed

lemma cached_no_fetch:
  assumes "ModelCache w n = Some model"
  shows "count_list (requested (load_all calls w)) (model_url n) = count_list (requested w) (model_url n)"
  using assms
proof (induction calls arbitrary: w)
  case Nil
  then show ?case by simp
next
  case (Cons c calls)
  obtain k loadAsync where c: "c = (k, loadAsync)" by (cases c)
  define w1 where "w1 = snd (loadGLTFObject loadAsync k w)"
  have "ModelCache w1 n = Some model"
    unfolding w1_def using Cons.prems by (rule cache_persists)
  then have "count_list (requested (load_all calls w1)) (model_url n) = count_list (requested w1) (model_url n)"
    by (rule Cons.IH)
  moreover have "count_list (requested w1) (model_url n) = count_list (requested w) (model_url n)"
    using Cons.prems by (auto simp: w1_def requested_load)
  ultimately show ?case by (simp add: c w1_def)
qed

lemma fetch_bound:
  "count_list (requested (load_all calls w)) (model_url n) \<le>
     count_list (requested w) (model_url n) +
     length (filter (\<lambda>(k, loadAsync). k = n \<and> loadAsync (model_url n) \<noteq> FirstChildMesh) calls) +
     (if ModelCache w n = None then 1 else 0)"
proof (induction calls arbitrary: w)
  case Nil
  then show ?case by simp
next
  case (Cons c calls)
  obtain k loadAsync where c: "c = (k, loadAsync)" by (cases c)
  define w1 where "w1 = snd (loadGLTFObject loadAsync k w)"
  define failing where "failing = (\<lambda>(k, loadAsync). k = n \<and> loadAsync (model_url n) \<noteq> FirstChildMesh)"
  have ih: "count_list (requested (load_all calls w1)) (model_url n) \<le>
     count_list (requested w1) (model_url n) + length (filter failing calls) +
     (if ModelCache w1 n = None then 1 else 0)"
    unfolding failing_def by (rule Cons.IH)
  have step: "count_list (requested w1) (model_url n) + length (filter failing calls) +
       (if ModelCache w1 n = None then 1 else 0) \<le>
     count_list (requested w) (model_url n) + length (filter failing (c # calls)) +
       (if ModelCache w n = None then 1 else 0)"
  proof (cases "k = n")
    case False
    then have "ModelCache w1 n = ModelCache w n"
      unfolding w1_def by (rule cache_other)
    moreover have "count_list (requested w1) (model_url n) = count_list (requested w) (model_url n)"
      using False by (simp add: w1_def requested_load)
    ultimately show ?thesis using False by (simp add: c failing_def)
  next
    case True
    show ?thesis
    proof (cases "ModelCache w n")
      case (Some cached)
      then have "w1 = w" using True by (simp add: w1_def loadGLTFObject_cached)
      then show ?thesis by simp
    next
      case None
      have r: "count_list (requested w1) (model_url n) = Suc (count_list (requested w) (model_url n))"
        using True None by (simp add: w1_def requested_load)
      show ?thesis
      proof (cases "loadAsync (model_url n) = FirstChildMesh")
        case mesh: True
        then have "ModelCache w1 n \<noteq> None"
          unfolding w1_def True by (rule cache_after_success)
        moreover have "\<not> failing c"
          using mesh by (simp add: c failing_def)
        ultimately show ?thesis using r None by auto
      next
        case other: False
        then have "failing c" using True by (simp add: c failing_def)
        then show ?thesis using r None by simp
      qed
    qed
  qed
  have "load_all (c # calls) w = load_all calls w1"
    by (simp add: c w1_def)
  then show ?case
    using ih step unfolding failing_def by simp
qed

text \<open>
  Claim C6, amended.  A call of \<open>loadGLTFObject\<close> requests the asset exactly once
  when the name is not in the cache and not at all when it is; once a name is in the
  cache, no sequence of calls requests its asset again; a call whose load gives a mesh
  leaves the name in the cache.  So from the empty cache the asset of a name is requested
  at most once more than the number of calls for it whose load gives no mesh.
\<close>

theorem fetch_once_after_success:
  "requested (snd (loadGLTFObject loadAsync n w)) =
     requested w @ (if ModelCache w n = None then [model_url n] else []) \<and>
   (ModelCache w n \<noteq> None \<longrightarrow>
      count_list (requested (load_all calls w)) (model_url n) = count_list (requested w) (model_url n)) \<and>
   (loadAsync (model_url n) = FirstChildMesh \<longrightarrow> ModelCache (snd (loadGLTFObject loadAsync n w)) n \<noteq> None) \<and>
   count_list (requested (load_all calls initial_world)) (model_url n) \<le>
     Suc (length (filter (\<lambda>(k, loadAsync). k = n \<and> loadAsync (model_url n) \<noteq> FirstChildMesh) calls))"
proof -
  have "count_list (requested (load_all calls initial_world)) (model_url n) \<le>
     Suc (length (filter (\<lambda>(k, loadAsync). k = n \<and> loadAsync (model_url n) \<noteq> FirstChildMesh) calls))"
    using fetch_bound [of calls initial_world n] by (simp add: initial_world_def)
  then show ?thesis
    using requested_load [of loadAsync n w] cached_no_fetch [of w n _ calls]
      cache_after_success [of loadAsync n w] by auto
qed

theorem fetch_once_after_success_witness:
  "ModelCache (snd (loadGLTFObject (\<lambda>u. FirstChildMesh) ''cup'' initial_world)) ''cup'' \<noteq> None \<and>
   requested (snd (loadGLTFObject (\<lambda>u. FirstChildMesh) ''cup'' initial_world)) = [''/models/cup.glb''] \<and>
   count_list (requested (load_all [(''cup'', \<lambda>u. LoadRejected), (''cushion'', \<lambda>u. FirstChildMesh),
                                     (''cup'', \<lambda>u. FirstChildMesh)]
      (snd (loadGLTFObject (\<lambda>u. FirstChildMesh) ''cup'' initial_world)))) (model_url ''cup'') = 1"
  using fetch_once_after_success [of "\<lambda>u. FirstChildMesh" "''cup''"
      "snd (loadGLTFObject (\<lambda>u. FirstChildMesh) ''cup'' initial_world)"
      "[(''cup'', \<lambda>u. LoadRejected), (''cushion'', \<lambda>u. FirstChildMesh), (''cup'', \<lambda>u. FirstChildMesh)]"]
  by (simp add: world_defs)

text \<open>
  The failures that are handled where they occur: a file that cannot be decoded, a model
  name without a drawing routine (once the canvas has given its context), and a loaded
  graph whose first child is not a mesh.
\<close>

lemma decode_failure_is_silent:
  "handle_event (ImageUpload (Some Undecodable) available) w = (Inr (), w)"
  by (rule handle_image_ignored) simp

lemma missing_routine_is_silent:
  assumes "DRAW_TEXTURE_MAP (name model) = None"
  shows "applyTexture True model img col w = (Inr (), w)"
  using assms by (simp add: applyTexture_None composite_eq)

lemma missing_mesh_is_silent:
  assumes "ModelCache w n = None" and "loadAsync (model_url n) = FirstChildOther"
  shows "handle_event (ModelSelect n loadAsync available) w =
           (Inr (), w\<lparr>requested := requested w @ [model_url n]\<rparr>)"
  using assms by (simp add: setActiveModel_None loadGLTFObject_uncached)

text \<open>
  Claim C5.  When \<open>loadAsync\<close> rejects, \<open>loadGLTFObject\<close> raises instead of
  returning \<open>null\<close>, and the error leaves \<open>setActiveModel\<close> and the handler
  of the model selection, and at the start \<open>setupImagePreviewControls\<close>, whatever
  the canvas would do.
\<close>

theorem rejected_load_propagates:
  "loadGLTFObject (\<lambda>u. LoadRejected) ''cup'' initial_world =
     (Inl LoadError, initial_world\<lparr>requested := [''/models/cup.glb'']\<rparr>) \<and>
   handle_event (ModelSelect ''cup'' (\<lambda>u. LoadRejected) available) initial_world =
     (Inl LoadError, initial_world\<lparr>requested := [''/models/cup.glb'']\<rparr>) \<and>
   setupImagePreviewControls (Some (''cup'', \<lambda>u. LoadRejected, available)) initial_world =
     (Inl LoadError, initial_world\<lparr>requested := [''/models/cup.glb'']\<rparr>)"
  by (simp add: world_defs)

end
